theory Spec2Isabelle
  imports Complex_Main "HOL-Library.Multiset"
begin

section \<open>Errors raised by the pose search\<close>

text \<open>
  Every \<open>raise\<close>, failed \<open>assert\<close> and library exception of
  \<open>cryodrgn/pose_search.py\<close> is a value of this type; a function that may fail returns
  \<open>error + 'a\<close> with \<open>Inl\<close> the exception.
\<close>

datatype error =
    AssertionError
  | NotImplementedError string
  | RuntimeError
  | IndexError
  | ValueError
  | NameError
  | TypeError

section \<open>Values of floating-point tensors\<close>

text \<open>
  A tensor entry is a real number or one of the non-finite values of IEEE arithmetic.
  Rounding, overflow and signed zeros are not modelled: the operations below are the
  exact ones on reals, extended by the IEEE rules for infinities and NaN. A zero divisor
  is the positive zero (the only divisors in the file are standard deviations).
\<close>

datatype fval = Fin real | PInf | NInf | NaN

definition signed_inf :: "real \<Rightarrow> fval" where
  "signed_inf s = (if 0 < s then PInf else if s < 0 then NInf else NaN)"

fun fneg :: "fval \<Rightarrow> fval" where
  "fneg (Fin x) = Fin (- x)"
| "fneg PInf = NInf"
| "fneg NInf = PInf"
| "fneg NaN = NaN"

fun fadd :: "fval \<Rightarrow> fval \<Rightarrow> fval" where
  "fadd (Fin x) (Fin y) = Fin (x + y)"
| "fadd NaN _ = NaN"
| "fadd _ NaN = NaN"
| "fadd PInf NInf = NaN"
| "fadd NInf PInf = NaN"
| "fadd PInf _ = PInf"
| "fadd NInf _ = NInf"
| "fadd _ PInf = PInf"
| "fadd _ NInf = NInf"

definition fsub :: "fval \<Rightarrow> fval \<Rightarrow> fval" where
  "fsub a b = fadd a (fneg b)"

fun fmul :: "fval \<Rightarrow> fval \<Rightarrow> fval" where
  "fmul (Fin x) (Fin y) = Fin (x * y)"
| "fmul NaN _ = NaN"
| "fmul _ NaN = NaN"
| "fmul (Fin x) PInf = signed_inf x"
| "fmul (Fin x) NInf = signed_inf (- x)"
| "fmul PInf (Fin y) = signed_inf y"
| "fmul NInf (Fin y) = signed_inf (- y)"
| "fmul PInf PInf = PInf"
| "fmul PInf NInf = NInf"
| "fmul NInf PInf = NInf"
| "fmul NInf NInf = PInf"

fun fdiv :: "fval \<Rightarrow> fval \<Rightarrow> fval" where
  "fdiv (Fin x) (Fin y) = (if y = 0 then signed_inf x else Fin (x / y))"
| "fdiv NaN _ = NaN"
| "fdiv _ NaN = NaN"
| "fdiv (Fin x) PInf = Fin 0"
| "fdiv (Fin x) NInf = Fin 0"
| "fdiv PInf (Fin y) = (if 0 \<le> y then PInf else NInf)"
| "fdiv NInf (Fin y) = (if 0 \<le> y then NInf else PInf)"
| "fdiv PInf _ = NaN"
| "fdiv NInf _ = NaN"

fun fsqrt :: "fval \<Rightarrow> fval" where
  "fsqrt (Fin x) = (if 0 \<le> x then Fin (sqrt x) else NaN)"
| "fsqrt PInf = PInf"
| "fsqrt NInf = NaN"
| "fsqrt NaN = NaN"


text \<open>\<open>Tensor.sum(-1)\<close> of one row.\<close>

definition fsum :: "fval list \<Rightarrow> fval" where
  "fsum xs = foldr fadd xs (Fin 0)"

text \<open>
  \<open>Tensor.std(-1)\<close> of one row: the sample standard deviation with Bessel's
  correction, NaN on fewer than two entries.
\<close>

definition fstd :: "fval list \<Rightarrow> fval" where
  "fstd xs =
     (if xs = [] then NaN
      else let n = real (length xs);
               m = fdiv (fsum xs) (Fin n)
           in fsqrt (fdiv (fsum (map (\<lambda>x. fmul (fsub x m) (fsub x m)) xs)) (Fin (n - 1))))"

text \<open>
  The order \<open>topk\<close> sorts by: negative infinity first, NaN last.
\<close>

fun frank :: "fval \<Rightarrow> nat" where
  "frank NInf = 0"
| "frank (Fin x) = 1"
| "frank PInf = 2"
| "frank NaN = 3"

fun fle :: "fval \<Rightarrow> fval \<Rightarrow> bool" where
  "fle (Fin x) (Fin y) = (x \<le> y)"
| "fle a b = (frank a \<le> frank b)"

instantiation fval :: linorder
begin

definition less_eq_fval :: "fval \<Rightarrow> fval \<Rightarrow> bool" where
  "less_eq_fval a b = fle a b"

definition less_fval :: "fval \<Rightarrow> fval \<Rightarrow> bool" where
  "less_fval a b = (fle a b \<and> \<not> fle b a)"

instance
proof
  fix x y z :: fval
  show "(x < y) = (x \<le> y \<and> \<not> y \<le> x)"
    by (simp add: less_eq_fval_def less_fval_def)
  show "x \<le> x"
    by (cases x) (simp_all add: less_eq_fval_def)
  show "x \<le> y \<Longrightarrow> y \<le> z \<Longrightarrow> x \<le> z"
    by (cases x; cases y; cases z) (simp_all add: less_eq_fval_def)
  show "x \<le> y \<Longrightarrow> y \<le> x \<Longrightarrow> x = y"
    by (cases x; cases y) (simp_all add: less_eq_fval_def)
  show "x \<le> y \<or> y \<le> x"
    by (cases x; cases y) (auto simp add: less_eq_fval_def)
qed

end

section \<open>Arrays\<close>

text \<open>
  A numpy array or torch tensor of any rank: its shape and its entries in row-major
  order.
\<close>

record 'a ndarray =
  shape :: "nat list"
  data :: "'a list"

definition well_shaped :: "'a ndarray \<Rightarrow> bool" where
  "well_shaped a = (length (data a) = prod_list (shape a))"

section \<open>State of a \<open>PoseSearch\<close> instance\<close>

text \<open>
  The attributes set by \<open>PoseSearch.__init__\<close>. The base grids are computed there by the
  grid collaborators and are data from then on; \<open>model_training\<close> is the flag
  \<open>self.model.training\<close> of the render model. The two caches start empty.
\<close>

type_synonym neighbors = "real ndarray \<times> int ndarray"

record pose_search =
  model_training :: bool
  base_healpy :: int
  so3_base_quat :: "real list list"
  s2_base_rot :: "real list list list"
  so3_base_rot :: "real list list list"
  nbase :: nat
  base_inplane :: "real list"
  base_shifts :: "real list list"
  t_extent :: real
  t_ngrid :: int
  Lmin :: int
  Lmax :: int
  tilt :: "real list list option"
  nkeptposes :: nat
  loss_fn :: string
  so3_neighbor_cache :: "int \<times> int \<times> int \<rightharpoonup> neighbors"
  shift_neighbor_cache :: "int \<times> int \<times> int \<rightharpoonup> neighbors"

section \<open>Resolution schedule: \<open>PoseSearch.getL\<close>\<close>

text \<open>
  \<open>return min(self.Lmin * 2 ** iter_, self.Lmax)\<close>. Python's \<open>2 ** iter_\<close> is an
  integer for \<open>iter_ \<ge> 0\<close> and the fraction \<open>1 / 2 ** (-iter_)\<close> otherwise, so the
  result lives in the reals; \<open>niter\<close> is not used.
\<close>

definition getL :: "('a pose_search_scheme) \<Rightarrow> int \<Rightarrow> int \<Rightarrow> real" where
  "getL self iter niter = min (of_int (Lmin self) * 2 powi iter) (of_int (Lmax self))"

section \<open>Scoring: the loss formulations of \<open>PoseSearch.eval_grid\<close>\<close>

text \<open>
  Inside \<open>compute_err\<close> the observed images are a \<open>B x T x Npix\<close> tensor (a list of
  \<open>B\<close> blocks of \<open>T\<close> rows) and the predictions \<open>y_hat\<close> a \<open>yB x 1 x NQ x Npix\<close> tensor
  (a list of \<open>yB\<close> blocks of \<open>NQ\<close> rows), with \<open>yB = 1\<close> for the base grid and \<open>yB = B\<close>
  for the incremental grid. Each loss is computed for one observed row against one
  predicted row, over the last axis.
\<close>

definition fdot :: "fval list \<Rightarrow> fval list \<Rightarrow> fval" where
  "fdot x y = fsum (map2 fmul x y)"

text \<open>\<open>(images - y_hat).pow(2).sum(-1)\<close>\<close>

definition mse_row :: "fval list \<Rightarrow> fval list \<Rightarrow> fval" where
  "mse_row x y = fsum (map2 (\<lambda>a b. fmul (fsub a b) (fsub a b)) x y)"

text \<open>\<open>-dots + norm\<close> with \<open>norm = (y_hat * y_hat).sum(-1) / 2\<close>\<close>

definition msf_row :: "fval list \<Rightarrow> fval list \<Rightarrow> fval" where
  "msf_row x y = fadd (fneg (fdot x y)) (fdiv (fdot y y) (Fin 2))"

text \<open>\<open>-(images * y_hat).sum(-1) / y_hat.std(-1)\<close>\<close>

definition cor_row :: "fval list \<Rightarrow> fval list \<Rightarrow> fval" where
  "cor_row x y = fdiv (fneg (fdot x y)) (fstd y)"

text \<open>
  Broadcasting of the batch axis: the block of predictions scored against image \<open>b\<close>.
\<close>

definition pred_block :: "'a list list list \<Rightarrow> nat \<Rightarrow> 'a list list" where
  "pred_block y_hat b = (if length y_hat = 1 then y_hat ! 0 else y_hat ! b)"

text \<open>
  The shapes torch accepts here: the batch extents agree or the predictions have batch
  extent one, and all rows have one width. (Broadcasting of a size-one axis other than
  the predictions' batch axis lies outside the shapes the docstring gives and is not
  modelled.)
\<close>

definition same_width :: "real list list list \<Rightarrow> fval list list list \<Rightarrow> bool" where
  "same_width images y_hat =
     (case concat (map (map length) images) @ concat (map (map length) y_hat) of
        [] \<Rightarrow> True
      | w # ws \<Rightarrow> list_all (\<lambda>v. v = w) ws)"

definition broadcastable :: "real list list list \<Rightarrow> fval list list list \<Rightarrow> bool" where
  "broadcastable images y_hat =
     ((length y_hat = 1 \<or> length y_hat = length images) \<and> same_width images y_hat)"

definition per_candidate ::
  "(fval list \<Rightarrow> fval list \<Rightarrow> fval) \<Rightarrow> real list list list \<Rightarrow> fval list list list
     \<Rightarrow> error + fval list list list" where
  "per_candidate f images y_hat =
     (if \<not> broadcastable images y_hat then Inl RuntimeError
      else Inr (map (\<lambda>(b, blk). map (\<lambda>x. map (\<lambda>y. f (map Fin x) y) (pred_block y_hat b)) blk)
                  (zip [0..<length images] images)))"

text \<open>
  The \<open>msf\<close> branch reshapes with \<open>view(B, -1, Npix)\<close> and \<open>view(B, T, -1)\<close>, which torch
  refuses on a tensor without elements when the given extents multiply to zero.
\<close>

definition msf_views_ok :: "real list list list \<Rightarrow> bool" where
  "msf_views_ok images =
     (images \<noteq> [] \<and> list_all (\<lambda>blk. blk \<noteq> []) images
        \<and> list_all (list_all (\<lambda>row. row \<noteq> [])) images)"

text \<open>
  Lines 106 to 124: the dispatch on \<open>self.loss_fn\<close>, after the predictions have been
  rendered.
\<close>

definition loss_stage ::
  "string \<Rightarrow> real list list list \<Rightarrow> fval list list list \<Rightarrow> error + fval list list list" where
  "loss_stage fn images y_hat =
     (if fn = ''mse'' then per_candidate mse_row images y_hat
      else if fn = ''msf'' then
        (if msf_views_ok images then per_candidate msf_row images y_hat else Inl RuntimeError)
      else if fn = ''cor'' then per_candidate cor_row images y_hat
      else Inl (NotImplementedError (''Unknown loss_fn: '' @ fn)))"

section \<open>Sequencing of fallible steps\<close>

definition ebind :: "error + 'a \<Rightarrow> ('a \<Rightarrow> error + 'b) \<Rightarrow> error + 'b" where
  "ebind m f = (case m of Inl e \<Rightarrow> Inl e | Inr v \<Rightarrow> f v)"

text \<open>All results of a list of steps, or the first error.\<close>

fun collect :: "(error + 'a) list \<Rightarrow> error + 'a list" where
  "collect [] = Inr []"
| "collect (m # ms) = ebind m (\<lambda>v. ebind (collect ms) (\<lambda>vs. Inr (v # vs)))"

section \<open>Interpolation kernel: \<open>interpolate\<close>\<close>

text \<open>
  Indexing a tensor axis of extent \<open>n\<close> with an integer tensor: an index from \<open>-n\<close> up
  to \<open>-1\<close> counts from the end, anything outside \<open>-n \<dots> n - 1\<close> raises.
\<close>

definition tensor_index :: "nat \<Rightarrow> int \<Rightarrow> error + nat" where
  "tensor_index n i =
     (if 0 \<le> i \<and> i < int n then Inr (nat i)
      else if - int n \<le> i \<and> i < 0 then Inr (nat (i + int n))
      else Inl IndexError)"

text \<open>\<open>img[i, j]\<close> for an image given as its list of rows.\<close>

definition pixel :: "real list list \<Rightarrow> int \<Rightarrow> int \<Rightarrow> error + real" where
  "pixel img i j =
     ebind (tensor_index (length img) i) (\<lambda>r.
     ebind (tensor_index (length (img ! r)) j) (\<lambda>c. Inr (img ! r ! c)))"

text \<open>
  One row \<open>p\<close> of \<open>coords\<close>. The source stacks \<open>(coords[:, 1], coords[:, 0])\<close>: the
  second component of the pair indexes the rows of the image and the first its columns.
\<close>

definition interpolate_point :: "real list list \<Rightarrow> real list \<Rightarrow> error + real" where
  "interpolate_point img p =
     (let c0 = p ! 1; c1 = p ! 0;
          cf0 = \<lfloor>c0\<rfloor>; cf1 = \<lfloor>c1\<rfloor>;
          cc0 = \<lceil>c0\<rceil>; cc1 = \<lceil>c1\<rceil>;
          cr0 = c0 - of_int cf0; cr1 = c1 - of_int cf1;
          ci0 = 1 - cr0; ci1 = 1 - cr1
      in ebind (pixel img cf0 cf1) (\<lambda>ff.
         ebind (pixel img cf0 cc1) (\<lambda>fc.
         ebind (pixel img cc0 cf1) (\<lambda>cf.
         ebind (pixel img cc0 cc1) (\<lambda>cc.
           Inr (ff * ci0 * ci1 + fc * ci0 * cr1 + cf * cr0 * ci1 + cc * cr0 * cr1))))))"

text \<open>
  \<open>interpolate(img, coords)\<close> on one image: \<open>coords\<close> is a list of rows, and the
  assertion \<open>coords.shape[-1] == 2\<close> asks every row to be a pair.
\<close>

definition interpolate :: "real list list \<Rightarrow> real list list \<Rightarrow> error + real list" where
  "interpolate img coords =
     (if \<not> list_all (\<lambda>p. length p = 2) coords then Inl AssertionError
      else collect (map (interpolate_point img) coords))"

text \<open>The same on a batch of images (the leading \<open>...\<close> axis of \<open>img\<close>).\<close>

definition interpolate_batch ::
  "real list list list \<Rightarrow> real list list \<Rightarrow> error + real list list" where
  "interpolate_batch imgs coords =
     (if \<not> list_all (\<lambda>p. length p = 2) coords then Inl AssertionError
      else collect (map (\<lambda>img. interpolate img coords) imgs))"

text \<open>
  The contract in the words of the specification, for a pair read as (row, column): the
  four neighbours at the floor and the ceiling of each coordinate, each weighted by the
  product over the two axes of one minus the distance along the axis.
\<close>

definition bilinear_spec :: "real list list \<Rightarrow> real \<Rightarrow> real \<Rightarrow> real" where
  "bilinear_spec img r c =
     (\<Sum>i\<leftarrow>[\<lfloor>r\<rfloor>, \<lceil>r\<rceil>]. \<Sum>j\<leftarrow>[\<lfloor>c\<rfloor>, \<lceil>c\<rceil>].
        img ! nat i ! nat j * (1 - \<bar>r - of_int i\<bar>) * (1 - \<bar>c - of_int j\<bar>))"

section \<open>Image resampler: \<open>rot_2d\<close> and \<open>PoseSearch.rotate_images\<close>\<close>

text \<open>
  The pixel lattice is a collaborator: its side length \<open>D\<close>, its \<open>D * D\<close> coordinate
  rows \<open>(x, y, z)\<close> and its circular mask for a frequency radius are taken as given.
\<close>

record lattice =
  lattice_D :: nat
  lattice_coords :: "real list list"
  get_circular_mask :: "real \<Rightarrow> bool list"

text \<open>
  \<open>rot_2d(angle, outD)\<close>: a zero \<open>outD x outD\<close> matrix whose upper left \<open>2 x 2\<close> block is
  the plane rotation. Writing \<open>rot[0, 1]\<close> into a matrix with \<open>outD < 2\<close> raises.
\<close>

definition rot_2d :: "real \<Rightarrow> nat \<Rightarrow> error + real list list" where
  "rot_2d angle outD =
     (if outD < 2 then Inl IndexError
      else Inr (map (\<lambda>i. map (\<lambda>j.
             if i = 0 \<and> j = 0 then cos angle
             else if i = 0 \<and> j = 1 then - sin angle
             else if i = 1 \<and> j = 0 then sin angle
             else if i = 1 \<and> j = 1 then cos angle
             else 0) [0..<outD]) [0..<outD]))"

text \<open>Matrix products \<open>a @ b\<close> of matrices given by rows, and of a row with a matrix.\<close>

definition row_matmul :: "real list \<Rightarrow> real list list \<Rightarrow> real list" where
  "row_matmul v m =
     map (\<lambda>j. \<Sum>k\<leftarrow>[0..<length v]. v ! k * m ! k ! j) [0..<length (m ! 0)]"

definition matmul :: "real list list \<Rightarrow> real list list \<Rightarrow> real list list" where
  "matmul a b = map (\<lambda>v. row_matmul v b) a"

text \<open>\<open>t[mask]\<close> on the first axis: the mask must have the extent of the axis.\<close>

definition select_mask :: "'a list \<Rightarrow> bool list \<Rightarrow> error + 'a list" where
  "select_mask xs msk =
     (if length msk \<noteq> length xs then Inl IndexError
      else Inr (map fst (filter snd (zip xs msk))))"

text \<open>
  \<open>full.view(BNQ, D * D)[:, mask] = squeezed\<close> for one image: a zero canvas with the
  values of the row written to the positions the mask selects, in order.
\<close>

fun scatter_mask :: "bool list \<Rightarrow> real list \<Rightarrow> real list" where
  "scatter_mask [] vs = []"
| "scatter_mask (True # ms) (v # vs) = v # scatter_mask ms vs"
| "scatter_mask (True # ms) [] = 0 # scatter_mask ms []"
| "scatter_mask (False # ms) vs = 0 # scatter_mask ms vs"

definition canvas :: "nat \<Rightarrow> bool list \<Rightarrow> real list \<Rightarrow> real list list" where
  "canvas d msk row =
     (let flat = scatter_mask msk row in map (\<lambda>i. take d (drop (i * d) flat)) [0..<d])"

text \<open>
  Line 174, for one image: \<open>interpolated *= squeezed.std(-1) / interpolated.std(-1)\<close>.
  The quotient of the two standard deviations is taken as it comes.
\<close>

definition std_rescale :: "real list \<Rightarrow> real list \<Rightarrow> fval list" where
  "std_rescale squeezed interpolated =
     (let factor = fdiv (fstd (map Fin squeezed)) (fstd (map Fin interpolated))
      in map (\<lambda>v. fmul (Fin v) factor) interpolated)"

text \<open>
  The body of the loop over the angles: the rescaled interpolation of every image at the
  rotated coordinates of one angle.
\<close>

definition rotate_by_angle ::
  "real list list list \<Rightarrow> real list list \<Rightarrow> real list list \<Rightarrow> error + fval list list" where
  "rotate_by_angle full_images squeezed interp_coords =
     ebind (interpolate_batch full_images interp_coords) (\<lambda>interpolated.
       if map length squeezed \<noteq> map length interpolated then Inl AssertionError
       else Inr (map2 std_rescale squeezed interpolated))"

text \<open>
  \<open>rotate_images(images, angles, L)\<close> for \<open>images\<close> of shape \<open>B x 1 x NQ x YX\<close>, given as
  \<open>B\<close> blocks of \<open>NQ\<close> rows. The result has shape \<open>B x 1 x (NQ * len(angles)) x YX\<close>: in
  block \<open>b\<close> the rows of prediction \<open>q\<close> under all angles follow each other.
\<close>

definition rotate_images ::
  "lattice \<Rightarrow> real list list list \<Rightarrow> real list \<Rightarrow> real \<Rightarrow> error + fval list list list" where
  "rotate_images lat images angles L =
     (let squeezed = concat images;
          d = lattice_D lat;
          msk = get_circular_mask lat L
      in if angles = [] then Inl RuntimeError
         else
           ebind (collect (map (\<lambda>a. rot_2d a 2) angles)) (\<lambda>rot_matrices.
           ebind (select_mask (lattice_coords lat) msk) (\<lambda>masked.
             let lattice_coords = map (take 2) masked;
                 rot_coords = map (\<lambda>m. map (\<lambda>p. map (\<lambda>v. (v + 0.5) * (real d - 1))
                                  (row_matmul p m)) lattice_coords) rot_matrices
             in if length msk \<noteq> d * d
                   \<or> \<not> list_all (\<lambda>row. length row = length (filter id msk)) squeezed
                then Inl RuntimeError
                else
                  let full_images = map (canvas d msk) squeezed
                  in ebind (collect (map (rotate_by_angle full_images squeezed) rot_coords))
                       (\<lambda>res. Inr (map (\<lambda>b. concat (map (\<lambda>q.
                              map (\<lambda>r. r ! (b * length (images ! b) + q)) res)
                            [0..<length (images ! b)])) [0..<length images])))))"

section \<open>A small instance\<close>

text \<open>
  A search object over a base grid of two rotations, one in-plane angle and two shifts,
  with the constructor's default numbers otherwise. The theorems are evaluated on it.
\<close>

definition demo_search :: pose_search where
  "demo_search =
     \<lparr>model_training = False,
      base_healpy = 1,
      so3_base_quat = [[1, 0, 0, 0], [0, 1, 0, 0]],
      s2_base_rot = [[[1, 0, 0], [0, 1, 0], [0, 0, 1]], [[1, 0, 0], [0, -1, 0], [0, 0, -1]]],
      so3_base_rot = [[[1, 0, 0], [0, 1, 0], [0, 0, 1]], [[1, 0, 0], [0, -1, 0], [0, 0, -1]]],
      nbase = 2,
      base_inplane = [0],
      base_shifts = [[-1, 0], [1, 0]],
      t_extent = 5,
      t_ngrid = 7,
      Lmin = 12,
      Lmax = 24,
      tilt = None,
      nkeptposes = 2,
      loss_fn = ''msf'',
      so3_neighbor_cache = Map.empty,
      shift_neighbor_cache = Map.empty\<rparr>"

section \<open>Scorer: \<open>PoseSearch.eval_grid\<close>\<close>

text \<open>
  Lines 96 to 102 evaluate the render model on the rotated lattice coordinates (with the
  latent code, if any): a collaborator, taken as the function \<open>render\<close> from the
  rotation matrices to the entries of its output. \<open>y_hat.view(-1, 1, NQ, YX)\<close> then
  groups the entries into blocks of \<open>NQ\<close> rows of \<open>YX\<close> pixels, and is refused by torch
  unless \<open>NQ * YX\<close> is positive and divides the number of entries.
\<close>

definition view_preds :: "real list \<Rightarrow> nat \<Rightarrow> nat \<Rightarrow> error + real list list list" where
  "view_preds flat NQ YX =
     (if NQ * YX = 0 \<or> length flat mod (NQ * YX) \<noteq> 0 then Inl RuntimeError
      else Inr (map (\<lambda>b. map (\<lambda>q. take YX (drop ((b * NQ + q) * YX) flat)) [0..<NQ])
                  [0..<length flat div (NQ * YX)]))"

text \<open>
  Lines 88 to 94: with in-plane angles, one of them is drawn (\<open>draw\<close> stands for the
  value of \<open>np.random.randint\<close>, which raises on an empty range), composed with every
  rotation, and subtracted from all angles.
\<close>

definition inplane_augment ::
  "real list option \<Rightarrow> nat \<Rightarrow> real list list list
     \<Rightarrow> error + real list list list \<times> real list option" where
  "inplane_augment angles_inplane draw rot =
     (case angles_inplane of
        None \<Rightarrow> Inr (rot, None)
      | Some angles \<Rightarrow>
          if angles = [] then Inl ValueError
          else let rand_a = angles ! (draw mod length angles)
               in ebind (rot_2d rand_a 3) (\<lambda>rand_inplane_rot.
                    Inr (map (matmul rand_inplane_rot) rot,
                         Some (map (\<lambda>a. a - rand_a) angles))))"

text \<open>
  Lines 88 to 105: the predictions scored by \<open>compute_err\<close>, of shape
  \<open>yB x 1 x NQ' x YX\<close> with \<open>NQ' = NQ\<close>, or \<open>NQ\<close> times the number of angles after
  \<open>rotate_images\<close>.
\<close>

definition predictions ::
  "lattice \<Rightarrow> (real list list list \<Rightarrow> real list) \<Rightarrow> nat \<Rightarrow> real \<Rightarrow> nat
     \<Rightarrow> real list option \<Rightarrow> nat \<Rightarrow> real list list list \<Rightarrow> error + fval list list list" where
  "predictions lat render NQ L YX angles_inplane draw rot =
     ebind (inplane_augment angles_inplane draw rot) (\<lambda>(rot', adj_angles_inplane).
     ebind (view_preds (render rot') NQ YX) (\<lambda>y_hat.
       case adj_angles_inplane of
         None \<Rightarrow> Inr (map (map (map Fin)) y_hat)
       | Some angles \<Rightarrow> rotate_images lat y_hat angles L))"

text \<open>Lines 86 to 124, the inner function \<open>compute_err(images, rot)\<close>.\<close>

definition compute_err ::
  "'a pose_search_scheme \<Rightarrow> lattice \<Rightarrow> (real list list list \<Rightarrow> real list) \<Rightarrow> nat \<Rightarrow> real
     \<Rightarrow> nat \<Rightarrow> real list option \<Rightarrow> nat \<Rightarrow> real list list list \<Rightarrow> real list list list
     \<Rightarrow> error + fval list list list" where
  "compute_err self lat render NQ L YX angles_inplane draw images rot =
     ebind (predictions lat render NQ L YX angles_inplane draw rot)
       (loss_stage (loss_fn self) images)"

text \<open>\<open>err += err_tilt\<close> on tensors of one shape.\<close>

definition add_loss ::
  "fval list list list \<Rightarrow> fval list list list \<Rightarrow> error + fval list list list" where
  "add_loss err err_tilt =
     (if map (map length) err \<noteq> map (map length) err_tilt then Inl RuntimeError
      else Inr (map2 (map2 (map2 fadd)) err err_tilt))"

text \<open>
  \<open>eval_grid(images, rot, z, NQ, L, images_tilt, angles_inplane)\<close>. The latent code \<open>z\<close>
  is only handed to the render model and is part of \<open>render\<close>; \<open>draws\<close> are the two
  values of the random generator (the second one for the tilt image).
\<close>

definition eval_grid ::
  "'a pose_search_scheme \<Rightarrow> lattice \<Rightarrow> (real list list list \<Rightarrow> real list)
     \<Rightarrow> real list list list \<Rightarrow> real list list list \<Rightarrow> nat \<Rightarrow> real
     \<Rightarrow> real list list list option \<Rightarrow> real list option \<Rightarrow> nat \<times> nat
     \<Rightarrow> error + fval list list list" where
  "eval_grid self lat render images rot NQ L images_tilt angles_inplane draws =
     ebind (select_mask (lattice_coords lat) (get_circular_mask lat L)) (\<lambda>coords.
     ebind (compute_err self lat render NQ L (length coords) angles_inplane (fst draws)
              images rot) (\<lambda>err.
       case images_tilt of
         None \<Rightarrow> Inr err
       | Some tilted \<Rightarrow>
           (case tilt self of
              None \<Rightarrow> Inl TypeError
            | Some tilt_rot \<Rightarrow>
                ebind (compute_err self lat render NQ L (length coords) angles_inplane
                         (snd draws) tilted (map (matmul tilt_rot) rot)) (\<lambda>err_tilt.
                add_loss err err_tilt))))"





text \<open>
  A coordinate pair within the bounds of the image: its second component between the
  first and the last row, its first component between the first and the last column.
\<close>

definition in_image :: "real list list \<Rightarrow> real list \<Rightarrow> bool" where
  "in_image img p =
     (length p = 2 \<and> 0 \<le> p ! 1 \<and> p ! 1 \<le> real (length img) - 1
        \<and> (\<forall>row\<in>set img. 0 \<le> p ! 0 \<and> p ! 0 \<le> real (length row) - 1))"

text \<open>
  The combination \<open>interpolate\<close> computes from the four neighbours of the point in row
  position \<open>r\<close> and column position \<open>c\<close>: the floor neighbour of an axis weighs one minus
  the fractional part of the coordinate, the ceiling neighbour the fractional part.
\<close>

definition bilinear :: "real list list \<Rightarrow> real \<Rightarrow> real \<Rightarrow> real" where
  "bilinear img r c =
     img ! nat \<lfloor>r\<rfloor> ! nat \<lfloor>c\<rfloor> * (1 - frac r) * (1 - frac c)
     + img ! nat \<lfloor>r\<rfloor> ! nat \<lceil>c\<rceil> * (1 - frac r) * frac c
     + img ! nat \<lceil>r\<rceil> ! nat \<lfloor>c\<rfloor> * frac r * (1 - frac c)
     + img ! nat \<lceil>r\<rceil> ! nat \<lceil>c\<rceil> * frac r * frac c"


section \<open>Top-k pruner: \<open>PoseSearch.keep_matrix\<close>\<close>

text \<open>
  \<open>t.view(B, -1)\<close> on a tensor of \<open>n\<close> entries: torch infers the second extent as
  \<open>n div B\<close>, and refuses when \<open>B\<close> does not divide \<open>n\<close> and when \<open>B = 0\<close> (no entries
  and an extent that could be anything). The result is the list of the \<open>B\<close> rows.
\<close>

definition view_rows :: "'a ndarray \<Rightarrow> nat \<Rightarrow> error + 'a list list" where
  "view_rows t B =
     (let n = prod_list (shape t)
      in if B = 0 \<or> n mod B \<noteq> 0 then Inl RuntimeError
         else Inr (map (\<lambda>b. take (n div B) (drop (b * (n div B)) (data t))) [0..<B]))"

text \<open>
  \<open>row.topk(k, largest=False, sorted=True)[1]\<close>: the positions of the \<open>k\<close> smallest
  entries of a row, by increasing value; among equal values the earlier position comes
  first. More than the row holds is refused.
\<close>

definition topk_smallest :: "nat \<Rightarrow> 'a::linorder list \<Rightarrow> error + nat list" where
  "topk_smallest k row =
     (if length row < k then Inl RuntimeError
      else Inr (take k (sort_key (\<lambda>i. row ! i) [0..<length row])))"

text \<open>
  The loop of lines 252 to 254 over the axes from the last to the first, given the
  extents in that order: each pass stores \<open>flat_idx % shape[d]\<close> as the row of axis \<open>d\<close>
  and goes on with \<open>flat_idx // shape[d]\<close>. It returns the rows in the order of the axes
  and what is left of \<open>flat_idx\<close>. Dividing a non-empty integer tensor by zero raises.
\<close>

fun unflatten :: "nat list \<Rightarrow> nat list \<Rightarrow> error + nat list list \<times> nat list" where
  "unflatten [] flat_idx = Inr ([], flat_idx)"
| "unflatten (s # ss) flat_idx =
     (if s = 0 \<and> flat_idx \<noteq> [] then Inl RuntimeError
      else ebind (unflatten ss (map (\<lambda>f. f div s) flat_idx)) (\<lambda>(keep_idx, rest).
             Inr (keep_idx @ [map (\<lambda>f. f mod s) flat_idx], rest)))"

text \<open>\<open>keep_matrix(loss, B, max_poses)\<close>: one row of indices per axis of \<open>loss\<close>.\<close>

definition keep_matrix :: "'a::linorder ndarray \<Rightarrow> nat \<Rightarrow> nat \<Rightarrow> error + nat list list" where
  "keep_matrix loss B max_poses =
     ebind (view_rows loss B) (\<lambda>flat_loss.
     ebind (collect (map (topk_smallest max_poses) flat_loss)) (\<lambda>top.
       let width = prod_list (shape loss) div B;
           flat_idx = concat (map (\<lambda>(b, idx). map (\<lambda>i. i + b * width) idx) (zip [0..<B] top))
       in ebind (unflatten (rev (shape loss)) flat_idx) (\<lambda>(keep_idx, rest).
            if list_all (\<lambda>f. f = 0) rest then Inr keep_idx else Inl AssertionError)))"

text \<open>
  Reading a tensor at one index per axis, \<open>t[i0, i1, \<dots>]\<close>: the row-major offset of the
  indices, each of which must lie below the extent of its axis.
\<close>

fun ravel :: "nat list \<Rightarrow> nat list \<Rightarrow> nat" where
  "ravel (s # ss) (i # is) = i * prod_list ss + ravel ss is"
| "ravel _ _ = 0"

definition gather :: "'a ndarray \<Rightarrow> nat list \<Rightarrow> error + 'a" where
  "gather t idx =
     (if length idx = length (shape t) \<and> list_all2 (\<lambda>i s. i < s) idx (shape t)
      then Inr (data t ! ravel (shape t) idx)
      else Inl IndexError)"

text \<open>The entries of image \<open>i\<close>: the slice \<open>loss[i]\<close>, flattened.\<close>

definition image_losses :: "'a ndarray \<Rightarrow> nat \<Rightarrow> 'a list" where
  "image_losses loss i =
     (let width = prod_list (tl (shape loss)) in take width (drop (i * width) (data loss)))"

text \<open>
  The index of the flat position \<open>f\<close> along every axis, last axis first for \<open>digits\<close>
  (given the extents in that order) and in the order of the axes for \<open>unravel\<close>: what
  the loop of \<open>keep_matrix\<close> computes for one entry of \<open>flat_idx\<close>.
\<close>

fun digits :: "nat list \<Rightarrow> nat \<Rightarrow> nat list" where
  "digits [] f = []"
| "digits (s # ss) f = (f mod s) # digits ss (f div s)"

definition unravel :: "nat list \<Rightarrow> nat \<Rightarrow> nat list" where
  "unravel shp f = rev (digits (rev shp) f)"

text \<open>
  The positions \<open>topk\<close> selects in the rows of a loss tensor, and the entries of
  \<open>flat_idx\<close> once the batch offsets are added (line 248).
\<close>

definition kept_rows :: "'a::linorder ndarray \<Rightarrow> nat \<Rightarrow> nat \<Rightarrow> nat list list" where
  "kept_rows loss B k =
     map (\<lambda>b. take k (sort_key (\<lambda>i. image_losses loss b ! i)
                  [0..<length (image_losses loss b)])) [0..<B]"

definition kept_flat :: "'a::linorder ndarray \<Rightarrow> nat \<Rightarrow> nat \<Rightarrow> nat list" where
  "kept_flat loss B k =
     concat (map (\<lambda>(b, idx). map (\<lambda>i. i + b * prod_list (tl (shape loss))) idx)
               (zip [0..<B] (kept_rows loss B k)))"

text \<open>A loss tensor for two images with two by two candidates each.\<close>

definition demo_loss :: "real ndarray" where
  "demo_loss = \<lparr>shape = [2, 2, 2], data = [5, 1, 3, 2, 0, 7, 4, 6]\<rparr>"


section \<open>Grid neighbor cache: \<open>get_neighbor_so3\<close> and \<open>get_neighbor_shift\<close>\<close>

text \<open>
  The grid topology and the quaternion conversion are collaborators (the modules
  \<open>so3_grid\<close>, \<open>shift_grid\<close> and \<open>lie_tools\<close>), taken as given functions.
  \<open>so3_grid.get_neighbor(quat, s2i, s1i, res)\<close> and
  \<open>shift_grid.get_neighbor(x, y, res, extent, ngrid)\<close> return a pair of arrays: the
  children and their grid indices.
\<close>

record grids =
  so3_get_neighbor :: "real list \<Rightarrow> int \<Rightarrow> int \<Rightarrow> int \<Rightarrow> neighbors"
  shift_get_neighbor :: "int \<Rightarrow> int \<Rightarrow> int \<Rightarrow> real \<Rightarrow> int \<Rightarrow> neighbors"
  quaternions_to_SO3 :: "real ndarray \<Rightarrow> real ndarray"
  so3_get_base_ind :: "nat list \<Rightarrow> int \<Rightarrow> int ndarray"
  shift_get_base_ind :: "nat list \<Rightarrow> real \<Rightarrow> int ndarray"

text \<open>
  \<open>get_neighbor_so3(quat, s2i, s1i, res)\<close>: the key is \<open>(int(s2i), int(s1i), int(res))\<close>
  and does not contain the quaternion. On a miss the collaborator's answer is stored; the
  stored answer is returned. The updated instance is returned along with the answer.
\<close>

definition get_neighbor_so3 ::
  "grids \<Rightarrow> 'a pose_search_scheme \<Rightarrow> real list \<Rightarrow> int \<Rightarrow> int \<Rightarrow> int
     \<Rightarrow> neighbors \<times> 'a pose_search_scheme" where
  "get_neighbor_so3 g self quat s2i s1i res =
     (let key = (s2i, s1i, res)
      in case so3_neighbor_cache self key of
           None \<Rightarrow>
             (let found = so3_get_neighbor g quat s2i s1i res
              in (found, self\<lparr>so3_neighbor_cache := (so3_neighbor_cache self)(key \<mapsto> found)\<rparr>))
         | Some found \<Rightarrow> (found, self))"

text \<open>
  \<open>get_neighbor_shift(x, y, res)\<close>: on a miss it asks the collaborator at resolution
  \<open>res - 1\<close> with the extent and density of the instance.
\<close>

definition get_neighbor_shift ::
  "grids \<Rightarrow> 'a pose_search_scheme \<Rightarrow> int \<Rightarrow> int \<Rightarrow> int \<Rightarrow> neighbors \<times> 'a pose_search_scheme" where
  "get_neighbor_shift g self x y res =
     (let key = (x, y, res)
      in case shift_neighbor_cache self key of
           None \<Rightarrow>
             (let found = shift_get_neighbor g x y (res - 1) (t_extent self) (t_ngrid self)
              in (found,
                  self\<lparr>shift_neighbor_cache := (shift_neighbor_cache self)(key \<mapsto> found)\<rparr>))
         | Some found \<Rightarrow> (found, self))"

text \<open>
  A sequence of calls on one instance: the answers in order, and the instance after the
  last call.
\<close>

fun so3_queries ::
  "grids \<Rightarrow> 'a pose_search_scheme \<Rightarrow> (real list \<times> int \<times> int \<times> int) list
     \<Rightarrow> neighbors list \<times> 'a pose_search_scheme" where
  "so3_queries g self [] = ([], self)"
| "so3_queries g self ((quat, s2i, s1i, res) # calls) =
     (let (found, self') = get_neighbor_so3 g self quat s2i s1i res;
          (rest, self'') = so3_queries g self' calls
      in (found # rest, self''))"

fun shift_queries ::
  "grids \<Rightarrow> 'a pose_search_scheme \<Rightarrow> (int \<times> int \<times> int) list
     \<Rightarrow> neighbors list \<times> 'a pose_search_scheme" where
  "shift_queries g self [] = ([], self)"
| "shift_queries g self ((x, y, res) # calls) =
     (let (found, self') = get_neighbor_shift g self x y res;
          (rest, self'') = shift_queries g self' calls
      in (found # rest, self''))"

text \<open>The direct computations the memoized queries stand for.\<close>

definition so3_direct :: "grids \<Rightarrow> real list \<times> int \<times> int \<times> int \<Rightarrow> neighbors" where
  "so3_direct g call = (case call of (quat, s2i, s1i, res) \<Rightarrow> so3_get_neighbor g quat s2i s1i res)"

definition shift_direct ::
  "grids \<Rightarrow> 'a pose_search_scheme \<Rightarrow> int \<times> int \<times> int \<Rightarrow> neighbors" where
  "shift_direct g self call =
     (case call of (x, y, res) \<Rightarrow>
        shift_get_neighbor g x y (res - 1) (t_extent self) (t_ngrid self))"

text \<open>
  The first call among \<open>calls\<close> for the cell and resolution of \<open>call\<close>, and the answers
  of a sequence of calls when each is computed directly with the quaternion its cell was
  first asked with (\<open>earlier\<close> are the calls made before).
\<close>

definition first_call ::
  "(real list \<times> int \<times> int \<times> int) list \<Rightarrow> real list \<times> int \<times> int \<times> int
     \<Rightarrow> real list \<times> int \<times> int \<times> int" where
  "first_call calls call =
     (case find (\<lambda>c. snd c = snd call) calls of None \<Rightarrow> call | Some c \<Rightarrow> c)"

fun so3_first_asked ::
  "grids \<Rightarrow> (real list \<times> int \<times> int \<times> int) list \<Rightarrow> (real list \<times> int \<times> int \<times> int) list
     \<Rightarrow> neighbors list" where
  "so3_first_asked g earlier [] = []"
| "so3_first_asked g earlier (call # calls) =
     so3_direct g (first_call earlier call) # so3_first_asked g (earlier @ [call]) calls"

text \<open>
  What the caches hold after a sequence of calls on a fresh instance: for every cell and
  resolution asked for, the collaborator's answer to the first such call; and only
  answers of the translation collaborator for the extent and density of the instance.
\<close>

definition so3_inv ::
  "grids \<Rightarrow> 'a pose_search_scheme \<Rightarrow> (real list \<times> int \<times> int \<times> int) list \<Rightarrow> bool" where
  "so3_inv g self earlier =
     (\<forall>key. so3_neighbor_cache self key
              = map_option (so3_direct g) (find (\<lambda>c. snd c = key) earlier))"

definition shift_inv :: "grids \<Rightarrow> 'a pose_search_scheme \<Rightarrow> 'a pose_search_scheme \<Rightarrow> bool" where
  "shift_inv g self0 self =
     (t_extent self = t_extent self0 \<and> t_ngrid self = t_ngrid self0
      \<and> (\<forall>key found. shift_neighbor_cache self key = Some found
             \<longrightarrow> found = shift_direct g self0 key))"


text \<open>
  Grid collaborators for the small instance. A rotation cell has eight children, each
  with the quaternion it was asked with (cut or filled with zeros to four components); a
  translation cell has four children; the
  conversion to rotation matrices returns one zero matrix per quaternion.
\<close>

definition demo_grids :: grids where
  "demo_grids =
     \<lparr>so3_get_neighbor = (\<lambda>quat s2i s1i res.
        (\<lparr>shape = [8, 4],
          data = concat (replicate 8 (take 4 (quat @ [0, 0, 0, 0])))\<rparr>,
         \<lparr>shape = [8, 2],
          data = [4 * s2i, 2 * s1i, 4 * s2i, 2 * s1i + 1,
                  4 * s2i + 1, 2 * s1i, 4 * s2i + 1, 2 * s1i + 1,
                  4 * s2i + 2, 2 * s1i, 4 * s2i + 2, 2 * s1i + 1,
                  4 * s2i + 3, 2 * s1i, 4 * s2i + 3, 2 * s1i + 1]\<rparr>)),
      shift_get_neighbor = (\<lambda>x y res extent ngrid.
        (\<lparr>shape = [4, 2],
          data = [of_int (2 * x), of_int (2 * y), of_int (2 * x), of_int (2 * y + 1),
                  of_int (2 * x + 1), of_int (2 * y), of_int (2 * x + 1), of_int (2 * y + 1)]\<rparr>,
         \<lparr>shape = [4, 2],
          data = [2 * x, 2 * y, 2 * x, 2 * y + 1, 2 * x + 1, 2 * y, 2 * x + 1, 2 * y + 1]\<rparr>)),
      quaternions_to_SO3 = (\<lambda>quats.
        \<lparr>shape = [prod_list (shape quats) div 4, 3, 3],
         data = replicate (prod_list (shape quats) div 4 * 9) 0\<rparr>),
      so3_get_base_ind = (\<lambda>idx healpy.
        \<lparr>shape = [length idx, 2], data = concat (map (\<lambda>i. [int i, 0]) idx)\<rparr>),
      shift_get_base_ind = (\<lambda>idx ngrid.
        \<lparr>shape = [length idx, 2], data = concat (map (\<lambda>i. [int i, 0]) idx)\<rparr>)\<rparr>"

section \<open>Subdivision engine: \<open>PoseSearch.subdivide\<close>\<close>

text \<open>
  \<open>np.array(list of arrays)\<close>: an empty list gives an array of shape \<open>(0,)\<close>; arrays of
  one shape are stacked along a new first axis; arrays of different shapes are refused
  (by a \<open>ValueError\<close> in current numpy).
\<close>

definition np_array :: "'a ndarray list \<Rightarrow> error + 'a ndarray" where
  "np_array arrays =
     (case arrays of
        [] \<Rightarrow> Inr \<lparr>shape = [0], data = []\<rparr>
      | a # rest \<Rightarrow>
          if list_all (\<lambda>b. shape b = shape a) rest
          then Inr \<lparr>shape = length arrays # shape a, data = concat (map data arrays)\<rparr>
          else Inl ValueError)"

text \<open>
  \<open>a.reshape(-1, k)\<close> and \<open>t.view(-1, k)\<close> for \<open>k > 0\<close>: refused unless \<open>k\<close> divides
  the number of entries, with the error given.
\<close>

definition rows_of_width :: "error \<Rightarrow> nat \<Rightarrow> 'a ndarray \<Rightarrow> error + 'a ndarray" where
  "rows_of_width err k a =
     (if prod_list (shape a) mod k \<noteq> 0 then Inl err
      else Inr \<lparr>shape = [prod_list (shape a) div k, k], data = data a\<rparr>)"

text \<open>Row \<open>i\<close> of a two-dimensional array, \<open>a[i]\<close>.\<close>

definition array_row :: "'a ndarray \<Rightarrow> nat \<Rightarrow> 'a list" where
  "array_row a i = take (shape a ! 1) (drop (i * (shape a ! 1)) (data a))"

text \<open>
  \<open>subdivide(quat, q_ind, t_ind, cur_res)\<close>. The result is the exception or the five
  arrays, together with the instance and its updated caches. The steps follow the source:
  the three assertions on the arguments, the rotation neighbors of every candidate, the
  two stacked arrays, the rotation matrices, the translation neighbors, the stacked
  translations and indices, and the five assertions on the results.
\<close>

definition subdivide ::
  "grids \<Rightarrow> 'a pose_search_scheme \<Rightarrow> real ndarray \<Rightarrow> int ndarray \<Rightarrow> int ndarray \<Rightarrow> int
     \<Rightarrow> (error + real ndarray \<times> int ndarray \<times> int ndarray \<times> real ndarray \<times> real ndarray)
         \<times> 'a pose_search_scheme" where
  "subdivide g self quat q_ind t_ind cur_res =
     (case shape quat of
        [] \<Rightarrow> (Inl IndexError, self)
      | N # _ \<Rightarrow>
          if shape quat \<noteq> [N, 4] \<or> shape q_ind \<noteq> [N, 2] \<or> shape t_ind \<noteq> [N, 2]
          then (Inl AssertionError, self)
          else
            let (so3_neighbors, self1) =
                  so3_queries g self
                    (map (\<lambda>i. (array_row quat i, array_row q_ind i ! 0, array_row q_ind i ! 1, cur_res)) [0..<N])
            in case ebind (np_array (map fst so3_neighbors)) (\<lambda>quat'.
                    ebind (np_array (map snd so3_neighbors)) (\<lambda>q_ind'.
                    ebind (rows_of_width RuntimeError 4 quat') (\<lambda>flat_quat.
                      Inr (quat', q_ind', quaternions_to_SO3 g flat_quat)))) of
                 Inl e \<Rightarrow> (Inl e, self1)
               | Inr (quat', q_ind', rot) \<Rightarrow>
                   let (shift_neighbors, self2) =
                         shift_queries g self1
                           (map (\<lambda>i. (array_row t_ind i ! 0, array_row t_ind i ! 1, cur_res)) [0..<N])
                   in (ebind (np_array (map fst shift_neighbors)) (\<lambda>stacked.
                       ebind (rows_of_width ValueError 2 stacked) (\<lambda>trans.
                       ebind (np_array (map snd shift_neighbors)) (\<lambda>t_ind'.
                         if shape quat' = [N, 8, 4] \<and> shape q_ind' = [N, 8, 2]
                            \<and> shape t_ind' = [N, 4, 2] \<and> shape rot = [N * 8, 3, 3]
                            \<and> shape trans = [N * 4, 2]
                         then Inr (quat', q_ind', t_ind', rot, trans)
                         else Inl AssertionError))),
                       self2))"

text \<open>
  The contract of the grid collaborators: eight rotation children with four quaternion
  components and two indices each, four translation children with two components and two
  indices each, and one \<open>3 x 3\<close> matrix per quaternion.
\<close>

definition grids_conform :: "grids \<Rightarrow> bool" where
  "grids_conform g =
     ((\<forall>quat s2i s1i res.
         shape (fst (so3_get_neighbor g quat s2i s1i res)) = [8, 4]
         \<and> shape (snd (so3_get_neighbor g quat s2i s1i res)) = [8, 2]
         \<and> well_shaped (fst (so3_get_neighbor g quat s2i s1i res))
         \<and> well_shaped (snd (so3_get_neighbor g quat s2i s1i res)))
      \<and> (\<forall>x y res extent ngrid.
         shape (fst (shift_get_neighbor g x y res extent ngrid)) = [4, 2]
         \<and> shape (snd (shift_get_neighbor g x y res extent ngrid)) = [4, 2]
         \<and> well_shaped (fst (shift_get_neighbor g x y res extent ngrid))
         \<and> well_shaped (snd (shift_get_neighbor g x y res extent ngrid)))
      \<and> (\<forall>quats m. shape quats = [m, 4] \<longrightarrow> shape (quaternions_to_SO3 g quats) = [m, 3, 3]))"

section \<open>Search driver: \<open>PoseSearch.opt_theta_trans\<close>\<close>

text \<open>
  Indexing with an index tensor: \<open>t[idx]\<close> on the first axis, and \<open>a[i_idx, j_idx]\<close> on
  the first two axes of a three-dimensional array. An index outside the axis raises.
\<close>

definition take_rows :: "'a list \<Rightarrow> nat list \<Rightarrow> error + 'a list" where
  "take_rows xs idx =
     collect (map (\<lambda>i. if i < length xs then Inr (xs ! i) else Inl IndexError) idx)"

definition index_pairs :: "'a ndarray \<Rightarrow> nat list \<Rightarrow> nat list \<Rightarrow> error + 'a ndarray" where
  "index_pairs a i_idx j_idx =
     (case shape a of
        [n, m, k] \<Rightarrow>
          if length i_idx \<noteq> length j_idx then Inl IndexError
          else ebind (collect (map2 (\<lambda>i j. if i < n \<and> j < m
                                 then Inr (take k (drop ((i * m + j) * k) (data a)))
                                 else Inl IndexError) i_idx j_idx)) (\<lambda>rows.
                 Inr \<lparr>shape = [length i_idx, k], data = concat rows\<rparr>)
      | _ \<Rightarrow> Inl IndexError)"

text \<open>A loss of shape \<open>B x T x Q\<close> as a tensor, and rows of one width as an array.\<close>

definition loss_tensor :: "'a list list list \<Rightarrow> 'a ndarray" where
  "loss_tensor l =
     \<lparr>shape = [length l,
               (case l of [] \<Rightarrow> 0 | blk # _ \<Rightarrow> length blk),
               (case concat l of [] \<Rightarrow> 0 | r # _ \<Rightarrow> length r)],
      data = concat (concat l)\<rparr>"

definition as_array :: "nat \<Rightarrow> 'a list list \<Rightarrow> 'a ndarray" where
  "as_array w rows = \<lparr>shape = [length rows, w], data = concat rows\<rparr>"

text \<open>
  \<open>translate_images(images, shifts, L)\<close>: the masked pixels of every image, handed to
  the translation of the lattice, a collaborator taken as the function \<open>translate_ht\<close>
  (masked images, shifts and mask to a \<open>B x T x Npix\<close> tensor).
\<close>

definition translate_images ::
  "lattice \<Rightarrow> (real list list \<Rightarrow> real ndarray \<Rightarrow> bool list \<Rightarrow> real list list list)
     \<Rightarrow> real list list \<Rightarrow> real ndarray \<Rightarrow> real \<Rightarrow> error + real list list list" where
  "translate_images lat translate_ht images shifts L =
     (let msk = get_circular_mask lat L
      in ebind (collect (map (\<lambda>img. select_mask img msk) images)) (\<lambda>masked.
           Inr (translate_ht masked shifts msk)))"

text \<open>
  \<open>t.view(n, 4, -1)\<close> on a tensor given by its rows of one width: \<open>n\<close> blocks of four
  rows, refused unless the tensor has \<open>4 * n\<close> rows and \<open>n\<close> is positive.
\<close>

definition view_blocks4 :: "nat \<Rightarrow> 'a list list list \<Rightarrow> error + 'a list list list" where
  "view_blocks4 n t =
     (let rows = concat t
      in if n = 0 \<or> length rows \<noteq> 4 * n then Inl RuntimeError
         else Inr (map (\<lambda>b. take 4 (drop (4 * b) rows)) [0..<n]))"

text \<open>
  What the driver is given besides the instance: the lattice with its translation, the
  render model (from the latent codes and the rotation matrices to its output), the grid
  collaborators and the two values of the random generator.
\<close>

record driver_env =
  env_lattice :: lattice
  env_translate_ht :: "real list list \<Rightarrow> real ndarray \<Rightarrow> bool list \<Rightarrow> real list list list"
  env_model :: "real list list option \<Rightarrow> real list list list \<Rightarrow> real list"
  env_grids :: grids
  env_draws :: "nat \<times> nat"

text \<open>The local variables of \<open>opt_theta_trans\<close> that the loop updates; a name that is
  not bound yet is \<open>None\<close>.\<close>

record search_state =
  keepB :: "nat list"
  keepT :: "nat list"
  keepQ :: "nat list"
  cur_quat :: "real ndarray"
  cur_q_ind :: "int ndarray"
  cur_t_ind :: "int ndarray"
  cur_trans :: "real ndarray"
  cur_loss :: "fval ndarray option"
  cur_rot :: "real ndarray option"

text \<open>\<open>keep_matrix(loss, B, k)\<close> unpacked into three names.\<close>

definition keep3 :: "fval ndarray \<Rightarrow> nat \<Rightarrow> nat \<Rightarrow> error + nat list \<times> nat list \<times> nat list" where
  "keep3 loss B k =
     ebind (keep_matrix loss B k) (\<lambda>keep.
       case keep of [b, t, q] \<Rightarrow> Inr (b, t, q) | _ \<Rightarrow> Inl ValueError)"

text \<open>
  Lines 274 to 290: the loss of every image against the base grid, at all base shifts
  and all base rotations under all in-plane angles.
\<close>

definition base_loss ::
  "driver_env \<Rightarrow> 'a pose_search_scheme \<Rightarrow> real list list \<Rightarrow> real list list option
     \<Rightarrow> real list list option \<Rightarrow> int \<Rightarrow> error + fval list list list" where
  "base_loss env self images z images_tilt niter =
     (let B = length images;
          base_rot = (case z of None \<Rightarrow> s2_base_rot self
                      | Some _ \<Rightarrow> concat (replicate B (s2_base_rot self)));
          L = getL self (base_healpy self - 1) niter;
          shifts = as_array 2 (base_shifts self)
      in ebind (translate_images (env_lattice env) (env_translate_ht env) images shifts L)
           (\<lambda>translated.
         ebind (case images_tilt of
                  None \<Rightarrow> Inr None
                | Some tilted \<Rightarrow>
                    ebind (translate_images (env_lattice env) (env_translate_ht env)
                             tilted shifts L) (\<lambda>t. Inr (Some t)))
           (\<lambda>translated_tilt.
         eval_grid self (env_lattice env) (env_model env z) translated base_rot
           (nbase self) L translated_tilt (Some (base_inplane self)) (env_draws env))))"

text \<open>
  Lines 273 to 295: the first pruning step, on the loss of the base grid or from the
  given initial poses; with initial poses the name \<open>loss\<close> stays unbound.
\<close>

definition first_candidates ::
  "driver_env \<Rightarrow> 'a pose_search_scheme \<Rightarrow> real list list \<Rightarrow> real list list option
     \<Rightarrow> real list list option \<Rightarrow> int \<Rightarrow> nat list list list option
     \<Rightarrow> error + nat list \<times> nat list \<times> nat list \<times> fval ndarray option" where
  "first_candidates env self images z images_tilt niter init_poses =
     (let B = length images
      in case init_poses of
           None \<Rightarrow>
             ebind (base_loss env self images z images_tilt niter) (\<lambda>loss.
             ebind (keep3 (loss_tensor loss) B (nkeptposes self)) (\<lambda>(kB, kT, kQ).
               Inr (kB, kT, kQ, Some (loss_tensor loss))))
         | Some poses \<Rightarrow>
             (if \<not> list_all (list_all (\<lambda>p. length p = 2)) poses then Inl RuntimeError
              else Inr (concat (map (replicate (nkeptposes self)) [0..<B]),
                        map (\<lambda>p. p ! 0) (concat poses),
                        map (\<lambda>p. p ! 1) (concat poses),
                        None)))"

text \<open>
  Line 297: \<open>torch.cat((keepT, keepQ), -1).view(2, B, K).permute(1, 2, 0)\<close>, a
  \<open>B x K x 2\<close> tensor of (translation index, rotation index) pairs.
\<close>

definition pack_poses :: "nat \<Rightarrow> nat \<Rightarrow> nat list \<Rightarrow> nat list \<Rightarrow> error + nat list list list" where
  "pack_poses B K kT kQ =
     (if length (kT @ kQ) \<noteq> 2 * B * K then Inl RuntimeError
      else Inr (map (\<lambda>b. map (\<lambda>k. [(kT @ kQ) ! (b * K + k), (kT @ kQ) ! (B * K + b * K + k)])
                           [0..<K]) [0..<B]))"

text \<open>The rows of an array along its first axis, and its \<open>3 x 3\<close> matrices.\<close>

definition rows_of :: "'a ndarray \<Rightarrow> 'a list list" where
  "rows_of a =
     (case shape a of
        [] \<Rightarrow> []
      | n # rest \<Rightarrow> map (\<lambda>i. take (prod_list rest) (drop (i * prod_list rest) (data a))) [0..<n])"

definition matrices_of :: "'a ndarray \<Rightarrow> 'a list list list" where
  "matrices_of a = map (\<lambda>m. map (\<lambda>i. take 3 (drop (3 * i) m)) [0..<3]) (rows_of a)"

text \<open>
  \<open>t.view(-1, m, k)[i_idx, j_idx]\<close>: the view is refused unless \<open>m * k\<close> divides the
  number of entries.
\<close>

definition view_index_pairs ::
  "nat \<Rightarrow> nat \<Rightarrow> 'a ndarray \<Rightarrow> nat list \<Rightarrow> nat list \<Rightarrow> error + 'a ndarray" where
  "view_index_pairs m k a i_idx j_idx =
     (if prod_list (shape a) mod (m * k) \<noteq> 0 then Inl RuntimeError
      else index_pairs \<lparr>shape = [prod_list (shape a) div (m * k), m, k], data = data a\<rparr>
             i_idx j_idx)"

text \<open>
  Lines 305 to 333, one pass of the loop at resolution \<open>iter\<close>: subdivide the kept
  candidates, score the \<open>4 x 8\<close> children of each, and keep \<open>nkeptposes\<close> per image.
\<close>

definition refine_step ::
  "driver_env \<Rightarrow> 'a pose_search_scheme \<Rightarrow> real list list \<Rightarrow> real list list option
     \<Rightarrow> real list list option \<Rightarrow> int \<Rightarrow> int \<Rightarrow> search_state
     \<Rightarrow> (error + search_state) \<times> 'a pose_search_scheme" where
  "refine_step env self images z images_tilt niter iter st =
     (let B = length images;
          keepB4 = concat (map (replicate 4) (keepB st));
          keepB8 = concat (map (replicate 8) (keepB st))
      in case (case z of
                 None \<Rightarrow> Inr None
               | Some zs \<Rightarrow> ebind (take_rows zs keepB8) (\<lambda>zb. Inr (Some zb))) of
           Inl e \<Rightarrow> (Inl e, self)
         | Inr zb \<Rightarrow>
             let L = getL self iter niter
             in case subdivide (env_grids env) self (cur_quat st) (cur_q_ind st) (cur_t_ind st)
                       iter of
                  (Inl e, self') \<Rightarrow> (Inl e, self')
                | (Inr (quat, q_ind, t_ind, rot, shifts), self') \<Rightarrow>
                    (let per_image = \<lparr>shape = take 1 (shape shifts) @ 1 # drop 1 (shape shifts),
                                          data = data shifts\<rparr>;
                         translate = (\<lambda>imgs.
                           ebind (take_rows imgs keepB4) (\<lambda>picked.
                           ebind (translate_images (env_lattice env) (env_translate_ht env)
                                    picked per_image L) (\<lambda>moved.
                           view_blocks4 (length (keepB st)) moved)))
                     in ebind (translate images) (\<lambda>translated.
                        ebind (case images_tilt of
                                 None \<Rightarrow> Inr None
                               | Some tilted \<Rightarrow> ebind (translate tilted) (\<lambda>t. Inr (Some t)))
                          (\<lambda>translated_tilt.
                        ebind (eval_grid self (env_lattice env) (env_model env zb) translated
                                 (matrices_of rot) 8 L translated_tilt None (env_draws env))
                          (\<lambda>loss.
                        ebind (keep3 (loss_tensor loss) B (nkeptposes self))
                          (\<lambda>(keepBN, kT, kQ).
                        if length loss = 0 \<and> keepBN \<noteq> [] then Inl RuntimeError
                        else if length keepBN \<noteq> B * nkeptposes self then Inl AssertionError
                        else
                          ebind (index_pairs quat keepBN kQ) (\<lambda>quat2.
                          ebind (index_pairs q_ind keepBN kQ) (\<lambda>q_ind2.
                          ebind (index_pairs t_ind keepBN kT) (\<lambda>t_ind2.
                            Inr \<lparr>keepB = map (\<lambda>b. b * B div length loss) keepBN,
                                 keepT = kT, keepQ = kQ,
                                 cur_quat = quat2, cur_q_ind = q_ind2, cur_t_ind = t_ind2,
                                 cur_trans = shifts,
                                 cur_loss = Some (loss_tensor loss),
                                 cur_rot = Some rot\<rparr>))))))),
                     self'))"

text \<open>The loop \<open>for iter_ in range(self.base_healpy, niter + 1)\<close> over its resolutions.\<close>

fun refine_loop ::
  "driver_env \<Rightarrow> 'a pose_search_scheme \<Rightarrow> real list list \<Rightarrow> real list list option
     \<Rightarrow> real list list option \<Rightarrow> int \<Rightarrow> int list \<Rightarrow> search_state
     \<Rightarrow> (error + search_state) \<times> 'a pose_search_scheme" where
  "refine_loop env self images z images_tilt niter [] st = (Inr st, self)"
| "refine_loop env self images z images_tilt niter (iter # iters) st =
     (case refine_step env self images z images_tilt niter iter st of
        (Inl e, self') \<Rightarrow> (Inl e, self')
      | (Inr st', self') \<Rightarrow> refine_loop env self' images z images_tilt niter iters st')"

text \<open>
  Lines 335 to 344: the best pose of every image, from the base grids when \<open>niter\<close> is
  zero and from the rotations and translations of the last pass otherwise. The names
  \<open>loss\<close> and \<open>rot\<close> are bound only by the base scoring and by a pass of the loop.
\<close>

definition best_poses ::
  "'a pose_search_scheme \<Rightarrow> nat \<Rightarrow> int \<Rightarrow> search_state
     \<Rightarrow> error + real list list list \<times> real list list" where
  "best_poses self B niter st =
     (case cur_loss st of
        None \<Rightarrow> Inl NameError
      | Some loss \<Rightarrow>
          ebind (keep3 loss B 1) (\<lambda>(bestBN, bestT, bestQ).
            if length bestBN \<noteq> B then Inl AssertionError
            else if niter = 0 then
              ebind (take_rows (so3_base_rot self) bestQ) (\<lambda>best_rot.
              ebind (take_rows (base_shifts self) bestT) (\<lambda>best_trans.
                Inr (best_rot, best_trans)))
            else
              (case cur_rot st of
                 None \<Rightarrow> Inl NameError
               | Some rot \<Rightarrow>
                   ebind (view_index_pairs 8 9 rot bestBN bestQ) (\<lambda>best_rot.
                   ebind (view_index_pairs 4 2 (cur_trans st) bestBN bestT) (\<lambda>best_trans.
                     Inr (matrices_of best_rot, rows_of best_trans))))))"

text \<open>
  \<open>opt_theta_trans(images, z, images_tilt, niter, init_poses)\<close>: the best rotation and
  translation of every image and the candidates of the first pruning step, or the
  exception; and the instance with its caches afterwards.
\<close>

definition opt_theta_trans ::
  "driver_env \<Rightarrow> 'a pose_search_scheme \<Rightarrow> real list list \<Rightarrow> real list list option
     \<Rightarrow> real list list option \<Rightarrow> int \<Rightarrow> nat list list list option
     \<Rightarrow> (error + real list list list \<times> real list list \<times> nat list list list)
         \<times> 'a pose_search_scheme" where
  "opt_theta_trans env self images z images_tilt niter init_poses =
     (let B = length images
      in if model_training self then (Inl AssertionError, self)
         else
           case ebind (first_candidates env self images z images_tilt niter init_poses)
                  (\<lambda>(kB, kT, kQ, loss).
                ebind (pack_poses B (nkeptposes self) kT kQ) (\<lambda>new_init_poses.
                ebind (take_rows (so3_base_quat self) kQ) (\<lambda>quat.
                ebind (take_rows (base_shifts self) kT) (\<lambda>shifts.
                  Inr (new_init_poses,
                       \<lparr>keepB = kB, keepT = kT, keepQ = kQ,
                        cur_quat = as_array 4 quat,
                        cur_q_ind = so3_get_base_ind (env_grids env) kQ (base_healpy self),
                        cur_t_ind = shift_get_base_ind (env_grids env) kT
                                      (of_int (t_ngrid self) * 2 powi (base_healpy self - 1)),
                        cur_trans = as_array 2 shifts,
                        cur_loss = loss,
                        cur_rot = None\<rparr>))))) of
             Inl e \<Rightarrow> (Inl e, self)
           | Inr (new_init_poses, st0) \<Rightarrow>
               (case refine_loop env self images z images_tilt niter
                       [base_healpy self..niter] st0 of
                  (Inl e, self') \<Rightarrow> (Inl e, self')
                | (Inr st, self') \<Rightarrow>
                    (ebind (best_poses self B niter st) (\<lambda>(best_rot, best_trans).
                       Inr (best_rot, best_trans, new_init_poses)),
                     self')))"


text \<open>
  The driver's collaborators for the small instance: a lattice of side two whose
  coordinates fall on the pixel centres, a translation that adds the first component of
  the shift to every pixel, and a render model with one fixed image for each of the two
  base rotations.
\<close>

definition unit_lattice :: lattice where
  "unit_lattice =
     \<lparr>lattice_D = 2,
      lattice_coords = [[- 1 / 2, - 1 / 2, 0], [1 / 2, - 1 / 2, 0], [- 1 / 2, 1 / 2, 0],
                        [1 / 2, 1 / 2, 0]],
      get_circular_mask = (\<lambda>L. [True, True, True, True])\<rparr>"

definition demo_env :: driver_env where
  "demo_env =
     \<lparr>env_lattice = unit_lattice,
      env_translate_ht = (\<lambda>masked shifts msk.
        map (\<lambda>img. map (\<lambda>s. map (\<lambda>v. v + s ! 0) img) (rows_of shifts)) masked),
      env_model = (\<lambda>z rot.
        concat (map (\<lambda>r. if r ! 1 ! 1 = 1 then [1, 2, 3, 4] else [4, 3, 2, 1]) rot)),
      env_grids = demo_grids,
      env_draws = (0, 0)\<rparr>"

section \<open>Properties of the resolution schedule\<close>

lemma getL_nonneg_iter:
  "0 \<le> i \<Longrightarrow> getL self i niter = of_int (min (Lmin self * 2 ^ nat i) (Lmax self))"
proof -
  assume nn: "0 \<le> i"
  have "(2::real) powi i = of_int (2 ^ nat i)"
    using nn by (simp add: power_int_def)
  then have "of_int (Lmin self) * (2::real) powi i = of_int (Lmin self * 2 ^ nat i)"
    by simp
  then show ?thesis
    unfolding getL_def by (simp only: of_int_min)
qed

lemma two_powi_mono: "i \<le> j \<Longrightarrow> (2::real) powi i \<le> 2 powi j"
  by (rule power_int_increasing) simp_all

text \<open>
  Claim C4. For a non-negative iteration index \<open>i\<close> and any \<open>niter\<close>, \<open>getL\<close> is
  \<open>min (Lmin * 2 ^ i) Lmax\<close>; when \<open>0 < Lmin\<close> it is non-decreasing in \<open>i\<close>, and it never
  exceeds \<open>Lmax\<close>.
\<close>

theorem getL_schedule:
  assumes "0 \<le> i"
  shows "getL self i niter = of_int (min (Lmin self * 2 ^ nat i) (Lmax self))
       \<and> getL self i niter \<le> of_int (Lmax self)
       \<and> (0 < Lmin self \<longrightarrow>
            (\<forall>j niter'. i \<le> j \<longrightarrow> getL self i niter \<le> getL self j niter'))"
proof (intro conjI impI allI)
  show "getL self i niter = of_int (min (Lmin self * 2 ^ nat i) (Lmax self))"
    using assms by (rule getL_nonneg_iter)
  show "getL self i niter \<le> of_int (Lmax self)"
    by (simp add: getL_def)
  fix j niter'
  assume pos: "0 < Lmin self" and le: "i \<le> j"
  have "of_int (Lmin self) * (2::real) powi i \<le> of_int (Lmin self) * 2 powi j"
    using pos two_powi_mono [OF le] by (simp add: mult_left_mono)
  then show "getL self i niter \<le> getL self j niter'"
    by (simp add: getL_def min_def)
qed

theorem getL_schedule_witness:
  "getL (demo_search\<lparr>Lmin := 12, Lmax := 40\<rparr>) 1 5 = 24
   \<and> getL (demo_search\<lparr>Lmin := 12, Lmax := 40\<rparr>) 1 5
       \<le> getL (demo_search\<lparr>Lmin := 12, Lmax := 40\<rparr>) 2 5
   \<and> getL (demo_search\<lparr>Lmin := 12, Lmax := 40\<rparr>) 2 5 = 40"
  using getL_schedule [of 1 "demo_search\<lparr>Lmin := 12, Lmax := 40\<rparr>" 5]
        getL_schedule [of 2 "demo_search\<lparr>Lmin := 12, Lmax := 40\<rparr>" 5]
  by simp

section \<open>Sequencing lemmas\<close>

lemma ebind_Inr: "(ebind m f = Inr v) = (\<exists>u. m = Inr u \<and> f u = Inr v)"
  by (cases m) (simp_all add: ebind_def)


lemma ebind_simps [simp]: "ebind (Inl e) f = Inl e" "ebind (Inr v) f = f v"
  by (simp_all add: ebind_def)


section \<open>The loss formulations on finite rows\<close>











lemma Fin_le [simp]: "(Fin x \<le> Fin y) = (x \<le> y)"
  by (simp add: less_eq_fval_def)

lemma Fin_less [simp]: "(Fin x < Fin y) = (x < y)"
  by (auto simp add: less_fval_def)






section \<open>Which errors the scorer can raise\<close>





























section \<open>Division by the standard deviation\<close>











lemma upt_small: "[0..<4] = [0, 1, 2, 3]" "[0..<2] = [0, 1]" "[0..<3] = [0, 1, 2]"
  by (simp_all add: upt_rec)








section \<open>The interpolation kernel within the image\<close>

lemma collect_map_Inr:
  "(\<And>x. x \<in> set xs \<Longrightarrow> f x = Inr (g x)) \<Longrightarrow> collect (map f xs) = Inr (map g xs)"
  by (induction xs) simp_all

lemma pixel_in_bounds:
  assumes "0 \<le> i" "i < int (length img)" "0 \<le> j" "j < int (length (img ! nat i))"
  shows "pixel img i j = Inr (img ! nat i ! nat j)"
  using assms by (simp add: pixel_def tensor_index_def)

lemma floor_ceiling_bounds:
  fixes y :: real
  assumes "0 \<le> y" "y \<le> real n - 1"
  shows "0 \<le> \<lfloor>y\<rfloor>" "\<lfloor>y\<rfloor> < int n" "0 \<le> \<lceil>y\<rceil>" "\<lceil>y\<rceil> < int n"
proof -
  show "0 \<le> \<lfloor>y\<rfloor>" using assms(1) by simp
  have "y \<le> of_int (int n - 1)" using assms(2) by simp
  then have c: "\<lceil>y\<rceil> \<le> int n - 1" by (simp only: ceiling_le_iff)
  then show "\<lceil>y\<rceil> < int n" by simp
  have "\<lfloor>y\<rfloor> \<le> \<lceil>y\<rceil>" by (rule floor_le_ceiling)
  then show "\<lfloor>y\<rfloor> < int n" using c by linarith
  show "0 \<le> \<lceil>y\<rceil>" using assms(1) by (simp add: ceiling_le_iff less_ceiling_iff)
qed

lemma interpolate_point_in_image:
  assumes "in_image img p"
  shows "interpolate_point img p = Inr (bilinear img (p ! 1) (p ! 0))"
proof -
  let ?y = "p ! 1" and ?x = "p ! 0"
  have y: "0 \<le> ?y" "?y \<le> real (length img) - 1"
    using assms by (simp_all add: in_image_def)
  note yb = floor_ceiling_bounds [OF y]
  have rows: "nat \<lfloor>?y\<rfloor> < length img" "nat \<lceil>?y\<rceil> < length img"
    using yb by linarith+
  have x: "0 \<le> ?x \<and> ?x \<le> real (length (img ! r)) - 1" if "r < length img" for r
  proof -
    have "img ! r \<in> set img" using that by simp
    then show ?thesis using assms unfolding in_image_def by blast
  qed
  have p1: "pixel img \<lfloor>?y\<rfloor> \<lfloor>?x\<rfloor> = Inr (img ! nat \<lfloor>?y\<rfloor> ! nat \<lfloor>?x\<rfloor>)"
    using yb x [OF rows(1)] floor_ceiling_bounds [of ?x "length (img ! nat \<lfloor>?y\<rfloor>)"]
    by (intro pixel_in_bounds) simp_all
  have p2: "pixel img \<lfloor>?y\<rfloor> \<lceil>?x\<rceil> = Inr (img ! nat \<lfloor>?y\<rfloor> ! nat \<lceil>?x\<rceil>)"
    using yb x [OF rows(1)] floor_ceiling_bounds [of ?x "length (img ! nat \<lfloor>?y\<rfloor>)"]
    by (intro pixel_in_bounds) simp_all
  have p3: "pixel img \<lceil>?y\<rceil> \<lfloor>?x\<rfloor> = Inr (img ! nat \<lceil>?y\<rceil> ! nat \<lfloor>?x\<rfloor>)"
    using yb x [OF rows(2)] floor_ceiling_bounds [of ?x "length (img ! nat \<lceil>?y\<rceil>)"]
    by (intro pixel_in_bounds) simp_all
  have p4: "pixel img \<lceil>?y\<rceil> \<lceil>?x\<rceil> = Inr (img ! nat \<lceil>?y\<rceil> ! nat \<lceil>?x\<rceil>)"
    using yb x [OF rows(2)] floor_ceiling_bounds [of ?x "length (img ! nat \<lceil>?y\<rceil>)"]
    by (intro pixel_in_bounds) simp_all
  show ?thesis
    unfolding interpolate_point_def Let_def p1 p2 p3 p4
    by (simp add: bilinear_def frac_def)
qed

lemma bilinear_spec_non_integer:
  assumes "r \<notin> \<int>" "c \<notin> \<int>"
  shows "bilinear_spec img r c = bilinear img r c"
proof -
  have "r \<noteq> of_int \<lfloor>r\<rfloor>" "c \<noteq> of_int \<lfloor>c\<rfloor>"
    using assms by (metis Ints_of_int)+
  then have cr: "\<lceil>r\<rceil> = \<lfloor>r\<rfloor> + 1" and cc: "\<lceil>c\<rceil> = \<lfloor>c\<rfloor> + 1"
    by (simp_all add: ceiling_altdef)
  have fr: "\<bar>r - of_int \<lfloor>r\<rfloor>\<bar> = frac r" "\<bar>r - (of_int \<lfloor>r\<rfloor> + 1)\<bar> = 1 - frac r"
    using frac_lt_1 [of r] frac_ge_0 [of r] by (simp_all add: frac_def)
  have fc: "\<bar>c - of_int \<lfloor>c\<rfloor>\<bar> = frac c" "\<bar>c - (of_int \<lfloor>c\<rfloor> + 1)\<bar> = 1 - frac c"
    using frac_lt_1 [of c] frac_ge_0 [of c] by (simp_all add: frac_def)
  have "bilinear_spec img r c =
      img ! nat \<lfloor>r\<rfloor> ! nat \<lfloor>c\<rfloor> * (1 - frac r) * (1 - frac c)
      + img ! nat \<lfloor>r\<rfloor> ! nat (\<lfloor>c\<rfloor> + 1) * (1 - frac r) * (1 - (1 - frac c))
      + (img ! nat (\<lfloor>r\<rfloor> + 1) ! nat \<lfloor>c\<rfloor> * (1 - (1 - frac r)) * (1 - frac c)
      + img ! nat (\<lfloor>r\<rfloor> + 1) ! nat (\<lfloor>c\<rfloor> + 1) * (1 - (1 - frac r)) * (1 - (1 - frac c)))"
    unfolding bilinear_spec_def cr cc by (simp add: fr fc del: diff_diff_eq2)
  then show ?thesis
    unfolding bilinear_def cr cc by simp
qed

lemma bilinear_integer:
  assumes "r \<in> \<int>" "c \<in> \<int>"
  shows "bilinear img r c = img ! nat \<lfloor>r\<rfloor> ! nat \<lfloor>c\<rfloor>"
  using assms by (simp add: bilinear_def frac_eq_0_iff [THEN iffD2])


lemma ceiling_quarter_half: "\<lceil>1 / 4 :: real\<rceil> = 1" "\<lceil>1 / 2 :: real\<rceil> = 1"
  by (rule ceiling_unique; simp)+

lemma quarter_half_not_int: "(1 / 4 :: real) \<notin> \<int>" "(1 / 2 :: real) \<notin> \<int>"
  by (simp_all add: frac_eq_0_iff [symmetric] frac_def)


text \<open>
  Claim C8, as amended. For coordinate pairs \<open>(x, y)\<close> within the image, whose second
  component \<open>y\<close> is the row position and whose first component \<open>x\<close> the column position,
  \<open>interpolate\<close> returns one value per pair: the combination of the four neighbours at
  the floor and the ceiling of \<open>y\<close> and \<open>x\<close>, the floor neighbour of an axis weighted by
  one minus the fractional part and the ceiling neighbour by the fractional part. Away
  from integer coordinates this is the combination of the specification at row \<open>y\<close> and
  column \<open>x\<close>; at integer coordinates it is the pixel itself.
\<close>

theorem interpolate_bilinear:
  assumes "\<forall>p\<in>set coords. in_image img p"
  shows "\<exists>vs. interpolate img coords = Inr vs \<and> length vs = length coords
       \<and> (\<forall>k<length coords.
            vs ! k = bilinear img (coords ! k ! 1) (coords ! k ! 0)
            \<and> (coords ! k ! 1 \<notin> \<int> \<and> coords ! k ! 0 \<notin> \<int> \<longrightarrow>
                 vs ! k = bilinear_spec img (coords ! k ! 1) (coords ! k ! 0))
            \<and> (coords ! k ! 1 \<in> \<int> \<and> coords ! k ! 0 \<in> \<int> \<longrightarrow>
                 vs ! k = img ! nat \<lfloor>coords ! k ! 1\<rfloor> ! nat \<lfloor>coords ! k ! 0\<rfloor>))"
proof -
  let ?vs = "map (\<lambda>p. bilinear img (p ! 1) (p ! 0)) coords"
  have pairs: "list_all (\<lambda>p. length p = 2) coords"
    using assms by (simp add: list_all_iff in_image_def)
  have "collect (map (interpolate_point img) coords) = Inr ?vs"
    using assms by (intro collect_map_Inr interpolate_point_in_image) blast
  then have res: "interpolate img coords = Inr ?vs"
    using pairs by (simp add: interpolate_def)
  have "\<forall>k<length coords.
            ?vs ! k = bilinear img (coords ! k ! 1) (coords ! k ! 0)
            \<and> (coords ! k ! 1 \<notin> \<int> \<and> coords ! k ! 0 \<notin> \<int> \<longrightarrow>
                 ?vs ! k = bilinear_spec img (coords ! k ! 1) (coords ! k ! 0))
            \<and> (coords ! k ! 1 \<in> \<int> \<and> coords ! k ! 0 \<in> \<int> \<longrightarrow>
                 ?vs ! k = img ! nat \<lfloor>coords ! k ! 1\<rfloor> ! nat \<lfloor>coords ! k ! 0\<rfloor>)"
    using bilinear_spec_non_integer bilinear_integer by simp
  then show ?thesis using res by simp
qed

theorem interpolate_bilinear_witness:
  "interpolate [[0, 1], [2, 3]] [[1 / 4, 1 / 2]] = Inr [5 / 4]
   \<and> bilinear_spec [[0, 1], [2, 3]] (1 / 2) (1 / 4) = 5 / 4"
proof -
  have inside: "\<forall>p\<in>set [[1 / 4, 1 / 2]]. in_image [[0, 1], [2, 3]] p"
    by (simp add: in_image_def)
  have spec: "bilinear_spec [[0, 1], [2, 3]] (1 / 2) (1 / 4) = 5 / 4"
    by (simp add: bilinear_spec_def ceiling_quarter_half)
  obtain vs where vs: "interpolate [[0, 1], [2, 3]] [[1 / 4, 1 / 2]] = Inr vs"
      "length vs = 1"
      "vs ! 0 = bilinear_spec [[0, 1], [2, 3]] (1 / 2) (1 / 4)"
    using interpolate_bilinear [OF inside] quarter_half_not_int by auto
  have "vs = [5 / 4]"
    using vs(2,3) spec by (cases vs) simp_all
  then show ?thesis using vs(1) spec by simp
qed


text \<open>
  Claim C8 as stated fails: read as (row, column), the pair \<open>(1/4, 1/2)\<close> on the image
  with the rows \<open>[0, 1]\<close> and \<open>[2, 3]\<close> would give \<open>1\<close>, and the source returns \<open>5/4\<close>,
  the value at row \<open>1/2\<close> and column \<open>1/4\<close>.
\<close>

theorem interpolate_row_column_counterexample:
  "interpolate [[0, 1], [2, 3]] [[1 / 4, 1 / 2]] = Inr [5 / 4]
   \<and> bilinear_spec [[0, 1], [2, 3]] (1 / 4) (1 / 2) = 1"
  by (simp add: interpolate_def interpolate_point_def pixel_def tensor_index_def Let_def
      bilinear_spec_def ceiling_quarter_half)

section \<open>Flattening and unflattening of indices\<close>

lemma length_digits [simp]: "length (digits rs f) = length rs"
  by (induction rs arbitrary: f) simp_all

lemma digits_append:
  "digits (as @ bs) f = digits as f @ digits bs (f div prod_list as)"
  by (induction as arbitrary: f) (simp_all add: div_mult2_eq)

lemma digits_less: "0 \<notin> set rs \<Longrightarrow> list_all2 (\<lambda>i s. i < s) (digits rs f) rs"
  by (induction rs arbitrary: f) simp_all

lemma length_unravel [simp]: "length (unravel shp f) = length shp"
  by (simp add: unravel_def)

lemma unravel_less: "0 \<notin> set shp \<Longrightarrow> list_all2 (\<lambda>i s. i < s) (unravel shp f) shp"
  using digits_less [of "rev shp" f] by (simp add: unravel_def list_all2_rev1)

lemma unravel_Cons: "unravel (s # ss) f = (f div prod_list ss mod s) # unravel ss f"
  by (simp add: unravel_def digits_append)

lemma ravel_unravel_mod: "ravel ss (unravel ss f) = f mod prod_list ss"
proof (induction ss)
  case Nil
  then show ?case by (simp add: unravel_def)
next
  case (Cons s ss)
  have "f mod (prod_list ss * s) = prod_list ss * (f div prod_list ss mod s) + f mod prod_list ss"
    by (rule mod_mult2_eq)
  then show ?case
    by (simp add: unravel_Cons Cons.IH mult.commute)
qed

lemma ravel_unravel: "f < prod_list ss \<Longrightarrow> ravel ss (unravel ss f) = f"
  by (simp add: ravel_unravel_mod)

lemma unflatten_Inr:
  "unflatten rs flat = Inr (rows, rest) \<Longrightarrow>
     length rows = length rs \<and> rest = map (\<lambda>f. f div prod_list rs) flat
     \<and> (\<forall>d<length rs. rows ! d = map (\<lambda>f. rev (digits rs f) ! d) flat)"
proof (induction rs arbitrary: flat rows rest)
  case Nil
  then show ?case by simp
next
  case (Cons s ss)
  from Cons.prems obtain rows' where
    rec: "unflatten ss (map (\<lambda>f. f div s) flat) = Inr (rows', rest)"
    and rows: "rows = rows' @ [map (\<lambda>f. f mod s) flat]"
    by (auto simp add: ebind_Inr split: if_splits)
  note ih = Cons.IH [OF rec]
  have len: "length rows' = length ss" using ih by simp
  have rest: "rest = map (\<lambda>f. f div prod_list (s # ss)) flat"
    using ih by (simp add: div_mult2_eq o_def)
  have "rows ! d = map (\<lambda>f. rev (digits (s # ss) f) ! d) flat" if d: "d < length (s # ss)" for d
  proof (cases "d < length ss")
    case True
    then have "rows ! d = map (\<lambda>f. rev (digits ss f) ! d) (map (\<lambda>f. f div s) flat)"
      using ih by (simp add: rows nth_append len)
    then show ?thesis using True by (simp add: nth_append o_def)
  next
    case False
    then have "d = length ss" using d by simp
    then show ?thesis by (simp add: rows nth_append len)
  qed
  then show ?case using len rest by (simp add: rows)
qed

lemma unflatten_total:
  "0 \<notin> set rs \<or> flat = [] \<Longrightarrow> \<exists>rows rest. unflatten rs flat = Inr (rows, rest)"
proof (induction rs arbitrary: flat)
  case Nil
  then show ?case by simp
next
  case (Cons s ss)
  have "0 \<notin> set ss \<or> map (\<lambda>f. f div s) flat = []" using Cons.prems by auto
  then obtain rows rest where "unflatten ss (map (\<lambda>f. f div s) flat) = Inr (rows, rest)"
    using Cons.IH by blast
  then show ?case using Cons.prems by auto
qed

lemma topk_values:
  "map (\<lambda>i. row ! i) (take k (sort_key (\<lambda>i. row ! i) [0..<length row])) = take k (sort row)"
proof -
  have "sort (map (\<lambda>i. row ! i) [0..<length row])
      = map (\<lambda>i. row ! i) (sort_key (\<lambda>i. row ! i) [0..<length row])"
    by (rule properties_for_sort) (simp_all add: sorted_sort_key)
  then have "map (\<lambda>i. row ! i) (sort_key (\<lambda>i. row ! i) [0..<length row]) = sort row"
    by (simp add: map_nth)
  then show ?thesis by (simp add: take_map [symmetric])
qed

lemma topk_in_range: "i \<in> set (take k (sort_key f [0..<n])) \<Longrightarrow> i < n"
  using set_take_subset [of k "sort_key f [0..<n]"] by auto

section \<open>The pruner on a well-formed loss tensor\<close>

lemma concat_uniform_length:
  "\<forall>xs\<in>set xss. length xs = k \<Longrightarrow> length (concat xss) = length xss * k"
  by (induction xss) simp_all

lemma concat_uniform_nth:
  "\<forall>xs\<in>set xss. length xs = k \<Longrightarrow> b < length xss \<Longrightarrow> j < k \<Longrightarrow>
     concat xss ! (b * k + j) = xss ! b ! j"
proof (induction xss arbitrary: b)
  case Nil
  then show ?case by simp
next
  case (Cons xs xss)
  show ?case
  proof (cases b)
    case 0
    then show ?thesis using Cons.prems by (simp add: nth_append)
  next
    case (Suc b')
    then have "concat xss ! (b' * k + j) = xss ! b' ! j"
      using Cons.prems by (intro Cons.IH) simp_all
    then show ?thesis using Cons.prems Suc by (simp add: nth_append)
  qed
qed

lemma image_losses_length:
  assumes "well_shaped loss" "shape loss = B # rest" "b < B"
  shows "length (image_losses loss b) = prod_list rest"
proof -
  have "b * prod_list rest + prod_list rest \<le> B * prod_list rest"
    using assms(3) by (metis Suc_leI mult_Suc mult_le_mono1 add.commute)
  then show ?thesis
    using assms by (simp add: image_losses_def well_shaped_def Let_def)
qed

lemma view_rows_images:
  assumes "well_shaped loss" "shape loss = B # rest" "0 < B"
  shows "view_rows loss B = Inr (map (image_losses loss) [0..<B])"
  using assms by (simp add: view_rows_def image_losses_def Let_def)

lemma collect_topk:
  assumes "well_shaped loss" "shape loss = B # rest" "k \<le> prod_list rest"
  shows "collect (map (topk_smallest k) (map (image_losses loss) [0..<B]))
           = Inr (kept_rows loss B k)"
proof -
  have "collect (map (topk_smallest k \<circ> image_losses loss) [0..<B])
      = Inr (map (\<lambda>b. take k (sort_key (\<lambda>i. image_losses loss b ! i)
                  [0..<length (image_losses loss b)])) [0..<B])"
    using assms image_losses_length [OF assms(1,2)]
    by (intro collect_map_Inr) (simp add: topk_smallest_def)
  then show ?thesis by (simp add: kept_rows_def)
qed

lemma kept_rows_facts:
  assumes "well_shaped loss" "shape loss = B # rest" "k \<le> prod_list rest"
  shows "length (kept_rows loss B k) = B"
    and "b < B \<Longrightarrow> length (kept_rows loss B k ! b) = k"
    and "b < B \<Longrightarrow> j < k \<Longrightarrow> kept_rows loss B k ! b ! j < prod_list rest"
    and "b < B \<Longrightarrow> map (\<lambda>i. image_losses loss b ! i) (kept_rows loss B k ! b)
            = take k (sort (image_losses loss b))"
proof -
  show "length (kept_rows loss B k) = B" by (simp add: kept_rows_def)
  show len: "length (kept_rows loss B k ! b) = k" if "b < B"
    using that assms(3) image_losses_length [OF assms(1,2) that]
    by (simp add: kept_rows_def)
  show "kept_rows loss B k ! b ! j < prod_list rest" if b: "b < B" and j: "j < k"
  proof -
    have "kept_rows loss B k ! b ! j \<in> set (kept_rows loss B k ! b)"
      using len [OF b] j by simp
    then show ?thesis
      using b image_losses_length [OF assms(1,2) b] topk_in_range
      by (simp add: kept_rows_def) blast
  qed
  show "map (\<lambda>i. image_losses loss b ! i) (kept_rows loss B k ! b)
            = take k (sort (image_losses loss b))" if "b < B"
    using that by (simp add: kept_rows_def topk_values)
qed

lemma kept_flat_facts:
  assumes "well_shaped loss" "shape loss = B # rest" "k \<le> prod_list rest"
  shows "length (kept_flat loss B k) = B * k"
    and "b < B \<Longrightarrow> j < k \<Longrightarrow>
           kept_flat loss B k ! (b * k + j) = kept_rows loss B k ! b ! j + b * prod_list rest"
proof -
  let ?xss = "map (\<lambda>(b, idx). map (\<lambda>i. i + b * prod_list rest) idx)
               (zip [0..<B] (kept_rows loss B k))"
  have flat: "kept_flat loss B k = concat ?xss"
    by (simp add: kept_flat_def assms(2))
  have lenx: "length ?xss = B"
    using kept_rows_facts(1) [OF assms] by simp
  have uni: "\<forall>xs\<in>set ?xss. length xs = k"
  proof
    fix xs assume "xs \<in> set ?xss"
    then obtain b where "b < B" "xs = ?xss ! b"
      using lenx by (metis in_set_conv_nth)
    then show "length xs = k"
      using kept_rows_facts(1,2) [OF assms] by simp
  qed
  show "length (kept_flat loss B k) = B * k"
    unfolding flat using concat_uniform_length [OF uni] lenx by simp
  show "kept_flat loss B k ! (b * k + j) = kept_rows loss B k ! b ! j + b * prod_list rest"
    if b: "b < B" and j: "j < k"
  proof -
    have "concat ?xss ! (b * k + j) = ?xss ! b ! j"
      using uni b j lenx by (intro concat_uniform_nth) simp_all
    then show ?thesis
      unfolding flat using b j kept_rows_facts(1,2) [OF assms] by simp
  qed
qed

lemma kept_flat_less:
  assumes "well_shaped loss" "shape loss = B # rest" "k \<le> prod_list rest"
    and "f \<in> set (kept_flat loss B k)"
  shows "f < prod_list (shape loss)"
proof -
  obtain p where p: "p < B * k" and f: "f = kept_flat loss B k ! p"
    using assms(4) kept_flat_facts(1) [OF assms(1-3)] by (metis in_set_conv_nth)
  have k: "0 < k" using p by (cases k) simp_all
  let ?b = "p div k" and ?j = "p mod k"
  have b: "?b < B" using p k by (simp add: less_mult_imp_div_less mult.commute)
  have j: "?j < k" using k by simp
  have "f = kept_rows loss B k ! ?b ! ?j + ?b * prod_list rest"
    using kept_flat_facts(2) [OF assms(1-3) b j] f by simp
  moreover have "kept_rows loss B k ! ?b ! ?j < prod_list rest"
    by (rule kept_rows_facts(3) [OF assms(1-3) b j])
  moreover have "?b * prod_list rest + prod_list rest \<le> B * prod_list rest"
    using b by (metis Suc_leI mult_Suc mult_le_mono1 add.commute)
  ultimately show ?thesis by (simp add: assms(2))
qed

lemma keep_matrix_result:
  assumes wf: "well_shaped loss" and shp: "shape loss = B # rest" and B: "0 < B"
    and k: "k \<le> prod_list rest"
  shows "keep_matrix loss B k
     = Inr (map (\<lambda>d. map (\<lambda>f. unravel (shape loss) f ! d) (kept_flat loss B k))
              [0..<length (shape loss)])"
proof -
  let ?flat = "kept_flat loss B k"
  have width: "prod_list (shape loss) div B = prod_list (tl (shape loss))"
    using B by (simp add: shp)
  have small: "\<forall>f\<in>set ?flat. f < prod_list (shape loss)"
    using kept_flat_less [OF wf shp k] by blast
  have "0 \<notin> set (rev (shape loss)) \<or> ?flat = []"
  proof (cases "?flat = []")
    case False
    then obtain f where "f \<in> set ?flat" by (cases ?flat) auto
    then have "prod_list (shape loss) \<noteq> 0" using small by fastforce
    then have "0 \<notin> set (shape loss)" by (simp add: prod_list_zero_iff)
    then show ?thesis by simp
  qed simp
  then obtain rows left where un: "unflatten (rev (shape loss)) ?flat = Inr (rows, left)"
    using unflatten_total by blast
  note facts = unflatten_Inr [OF un]
  have left: "list_all (\<lambda>f. f = 0) left"
    using facts small by (simp add: list_all_iff)
  have rows: "rows = map (\<lambda>d. map (\<lambda>f. unravel (shape loss) f ! d) ?flat)
              [0..<length (shape loss)]"
    using facts by (intro nth_equalityI) (simp_all add: unravel_def)
  show ?thesis
    unfolding keep_matrix_def view_rows_images [OF wf shp B] ebind_simps
      collect_topk [OF wf shp k] Let_def width kept_flat_def [symmetric] un
    using left rows by simp
qed

lemma map_upt_nth: "length xs = n \<Longrightarrow> map (\<lambda>j. g (xs ! j)) [0..<n] = map g xs"
  by (auto intro: nth_equalityI)

lemma gather_unravel:
  assumes "f < prod_list (shape t)"
  shows "gather t (unravel (shape t) f) = Inr (data t ! f)"
proof -
  have "prod_list (shape t) \<noteq> 0" using assms by simp
  then have "0 \<notin> set (shape t)" by (simp add: prod_list_zero_iff)
  then show ?thesis
    using unravel_less [of "shape t" f] ravel_unravel [OF assms]
    by (simp add: gather_def)
qed

lemma image_losses_nth:
  assumes "well_shaped loss" "shape loss = B # rest" "i < B" "r < prod_list rest"
  shows "data loss ! (r + i * prod_list rest) = image_losses loss i ! r"
proof -
  have "i * prod_list rest + prod_list rest \<le> B * prod_list rest"
    using assms(3) by (metis Suc_leI mult_Suc mult_le_mono1 add.commute)
  then have "i * prod_list rest \<le> length (data loss)"
    using assms(1,2,3) by (simp add: well_shaped_def)
  moreover have "image_losses loss i = take (prod_list rest) (drop (i * prod_list rest) (data loss))"
    using assms(2) by (simp add: image_losses_def Let_def)
  ultimately have "image_losses loss i ! r = data loss ! (i * prod_list rest + r)"
    using assms(4) by simp
  then show ?thesis by (simp add: add.commute)
qed

lemma demo_keep:
  "keep_matrix demo_loss 2 2 = Inr [[0, 0, 1, 1], [0, 1, 0, 1], [1, 1, 0, 0]]"
  by (simp add: keep_matrix_def demo_loss_def view_rows_def topk_smallest_def upt_small
      Let_def)


lemma keep_matrix_props:
  assumes wf: "well_shaped loss" and shp: "shape loss = B # rest" and B: "0 < B"
    and k: "k \<le> prod_list rest"
  shows "\<exists>keep. keep_matrix loss B k = Inr keep
     \<and> length keep = length (shape loss)
     \<and> (\<forall>d<length (shape loss).
          length (keep ! d) = B * k \<and> (\<forall>p<B * k. keep ! d ! p < shape loss ! d))
     \<and> (\<forall>i<B. \<forall>j<k. keep ! 0 ! (i * k + j) = i)
     \<and> (\<forall>i<B. collect (map (\<lambda>j. gather loss (map (\<lambda>d. keep ! d ! (i * k + j))
                                 [0..<length (shape loss)])) [0..<k])
              = Inr (take k (sort (image_losses loss i))))"
proof -
  let ?flat = "kept_flat loss B k"
  let ?rank = "length (shape loss)"
  let ?keep = "map (\<lambda>d. map (\<lambda>f. unravel (shape loss) f ! d) ?flat) [0..<?rank]"
  note flat = kept_flat_facts [OF wf shp k]
  note rows = kept_rows_facts [OF wf shp k]
  have entry: "?keep ! d ! p = unravel (shape loss) (?flat ! p) ! d"
    if "d < ?rank" "p < B * k" for d p
    using that flat(1) by simp
  have small: "?flat ! p < prod_list (shape loss)" if "p < B * k" for p
    using kept_flat_less [OF wf shp k, of "?flat ! p"] that flat(1) by simp
  have pos: "i * k + j < B * k" if "i < B" "j < k" for i j
  proof -
    have "i * k + k \<le> B * k"
      using that(1) by (metis Suc_leI mult_Suc mult_le_mono1 add.commute)
    then show ?thesis using that(2) by simp
  qed
  have range: "?keep ! d ! p < shape loss ! d" if d: "d < ?rank" and p: "p < B * k" for d p
  proof -
    have "prod_list (shape loss) \<noteq> 0" using small [OF p] by simp
    then have "0 \<notin> set (shape loss)" by (simp add: prod_list_zero_iff)
    then have "list_all2 (\<lambda>i s. i < s) (unravel (shape loss) (?flat ! p)) (shape loss)"
      by (rule unravel_less)
    then have "unravel (shape loss) (?flat ! p) ! d < shape loss ! d"
      using d by (simp add: list_all2_nthD2)
    then show ?thesis using entry [OF d p] by simp
  qed
  have batch: "?keep ! 0 ! (i * k + j) = i" if i: "i < B" and j: "j < k" for i j
  proof -
    let ?r = "kept_rows loss B k ! i ! j"
    have r: "?r < prod_list rest" by (rule rows(3) [OF i j])
    have "?flat ! (i * k + j) = ?r + i * prod_list rest" by (rule flat(2) [OF i j])
    then have "unravel (shape loss) (?flat ! (i * k + j)) ! 0 = i"
      using r i by (simp add: shp unravel_Cons)
    then show ?thesis using entry [of 0 "i * k + j"] pos [OF i j] by (simp add: shp)
  qed
  have gathered: "collect (map (\<lambda>j. gather loss (map (\<lambda>d. ?keep ! d ! (i * k + j)) [0..<?rank]))
                  [0..<k]) = Inr (take k (sort (image_losses loss i)))" if i: "i < B" for i
  proof -
    have one: "gather loss (map (\<lambda>d. ?keep ! d ! (i * k + j)) [0..<?rank])
        = Inr (image_losses loss i ! (kept_rows loss B k ! i ! j))" if j: "j < k" for j
    proof -
      let ?f = "?flat ! (i * k + j)"
      have "map (\<lambda>d. ?keep ! d ! (i * k + j)) [0..<?rank]
          = map (\<lambda>d. unravel (shape loss) ?f ! d) [0..<?rank]"
        using entry pos [OF i j] by simp
      also have "\<dots> = unravel (shape loss) ?f"
        by (intro nth_equalityI) simp_all
      finally have idx: "map (\<lambda>d. ?keep ! d ! (i * k + j)) [0..<?rank]
          = unravel (shape loss) ?f" .
      have "data loss ! ?f = image_losses loss i ! (kept_rows loss B k ! i ! j)"
        using image_losses_nth [OF wf shp i rows(3) [OF i j]] flat(2) [OF i j] by simp
      then show ?thesis
        unfolding idx using gather_unravel [OF small [OF pos [OF i j]]] by simp
    qed
    have "collect (map (\<lambda>j. gather loss (map (\<lambda>d. ?keep ! d ! (i * k + j)) [0..<?rank]))
            [0..<k])
        = Inr (map (\<lambda>j. image_losses loss i ! (kept_rows loss B k ! i ! j)) [0..<k])"
      using one by (intro collect_map_Inr) simp
    also have "map (\<lambda>j. image_losses loss i ! (kept_rows loss B k ! i ! j)) [0..<k]
        = map (\<lambda>r. image_losses loss i ! r) (kept_rows loss B k ! i)"
      using rows(2) [OF i] by (rule map_upt_nth)
    also have "\<dots> = take k (sort (image_losses loss i))"
      by (rule rows(4) [OF i])
    finally show ?thesis .
  qed
  have "keep_matrix loss B k = Inr ?keep"
    by (rule keep_matrix_result [OF wf shp B k])
  moreover have "length ?keep = ?rank" by simp
  moreover have "\<forall>d<?rank. length (?keep ! d) = B * k \<and> (\<forall>p<B * k. ?keep ! d ! p < shape loss ! d)"
    using range flat(1) by simp
  moreover have "\<forall>i<B. \<forall>j<k. ?keep ! 0 ! (i * k + j) = i"
    using batch by blast
  moreover have "\<forall>i<B. collect (map (\<lambda>j. gather loss (map (\<lambda>d. ?keep ! d ! (i * k + j))
                                 [0..<?rank])) [0..<k])
              = Inr (take k (sort (image_losses loss i)))"
    using gathered by blast
  ultimately show ?thesis by blast
qed

text \<open>
  Claim C1, as amended. For a loss tensor whose first axis has extent \<open>B \<ge> 1\<close> and every
  \<open>max_poses\<close> up to the product of the other extents, \<open>keep_matrix\<close> returns one index
  row per axis, each of length \<open>B * max_poses\<close>; every index lies below the extent of its
  axis; the batch indices of the block of image \<open>i\<close> all equal \<open>i\<close>; and gathering the
  tensor at the returned indices gives, for every image, its \<open>max_poses\<close> smallest values
  in non-decreasing order.
\<close>

theorem keep_matrix_top_k:
  assumes wf: "well_shaped loss" and shp: "shape loss = B # rest" and B: "0 < B"
    and k: "k \<le> prod_list rest"
  shows "\<exists>keep. keep_matrix loss B k = Inr keep
     \<and> length keep = length (shape loss)
     \<and> (\<forall>d<length (shape loss).
          length (keep ! d) = B * k \<and> (\<forall>p<B * k. keep ! d ! p < shape loss ! d))
     \<and> (\<forall>i<B. \<forall>j<k. keep ! 0 ! (i * k + j) = i)
     \<and> (\<forall>i<B. collect (map (\<lambda>j. gather loss (map (\<lambda>d. keep ! d ! (i * k + j))
                                 [0..<length (shape loss)])) [0..<k])
              = Inr (take k (sort (image_losses loss i))))"
  by (rule keep_matrix_props [OF wf shp B k])

theorem keep_matrix_top_k_witness:
  "keep_matrix demo_loss 2 2 = Inr [[0, 0, 1, 1], [0, 1, 0, 1], [1, 1, 0, 0]]
   \<and> collect (map (\<lambda>j. gather demo_loss
         (map (\<lambda>d. [[0, 0, 1, 1], [0, 1, 0, 1], [1, 1, 0, 0]] ! d ! (1 * 2 + j)) [0..<3]))
       [0..<2]) = Inr (take 2 (sort (image_losses demo_loss 1)))
   \<and> take 2 (sort (image_losses demo_loss 1)) = [0, 4]"
proof -
  have wf: "well_shaped demo_loss" by (simp add: well_shaped_def demo_loss_def)
  have shp: "shape demo_loss = 2 # [2, 2]" by (simp add: demo_loss_def)
  have k: "2 \<le> prod_list [2, 2 :: nat]" by simp
  obtain keep where keep: "keep_matrix demo_loss 2 2 = Inr keep"
    and vals: "\<forall>i<2. collect (map (\<lambda>j. gather demo_loss (map (\<lambda>d. keep ! d ! (i * 2 + j))
                    [0..<length (shape demo_loss)])) [0..<2])
              = Inr (take 2 (sort (image_losses demo_loss i)))"
    using keep_matrix_top_k [OF wf shp _ k] by auto
  have eq: "keep = [[0, 0, 1, 1], [0, 1, 0, 1], [1, 1, 0, 0]]"
    using keep demo_keep by simp
  have "collect (map (\<lambda>j. gather demo_loss (map (\<lambda>d. keep ! d ! (1 * 2 + j))
                    [0..<length (shape demo_loss)])) [0..<2])
              = Inr (take 2 (sort (image_losses demo_loss 1)))"
    using vals [rule_format, of 1] by simp
  moreover have "length (shape demo_loss) = 3" by (simp add: demo_loss_def)
  moreover have "take 2 (sort (image_losses demo_loss 1)) = [0, 4]"
    by (simp add: image_losses_def demo_loss_def)
  ultimately show ?thesis using demo_keep eq by simp
qed


text \<open>
  Claim C1 as stated fails on an empty batch: \<open>loss.view(0, -1)\<close> is refused by torch,
  so no index arrays are returned for \<open>B = 0\<close>.
\<close>

theorem keep_matrix_empty_batch_counterexample:
  "well_shaped \<lparr>shape = [0, 2], data = [] :: real list\<rparr>
   \<and> 1 \<le> prod_list (tl (shape \<lparr>shape = [0, 2], data = [] :: real list\<rparr>))
   \<and> keep_matrix \<lparr>shape = [0, 2], data = [] :: real list\<rparr> 0 1 = Inl RuntimeError"
  by (simp add: well_shaped_def keep_matrix_def view_rows_def)

section \<open>The memoized neighbor queries\<close>

lemma find_append:
  "find P (xs @ ys) = (case find P xs of None \<Rightarrow> find P ys | Some x \<Rightarrow> Some x)"
  by (induction xs) simp_all

lemma so3_inv_fresh: "so3_neighbor_cache self = Map.empty \<Longrightarrow> so3_inv g self []"
  by (simp add: so3_inv_def)

lemma shift_inv_fresh: "shift_neighbor_cache self = Map.empty \<Longrightarrow> shift_inv g self self"
  by (simp add: shift_inv_def)

lemma so3_step:
  assumes inv: "so3_inv g self earlier"
    and call: "get_neighbor_so3 g self quat s2i s1i res = (found, self')"
  shows "found = so3_direct g (first_call earlier (quat, s2i, s1i, res))"
    and "so3_inv g self' (earlier @ [(quat, s2i, s1i, res)])"
proof -
  let ?key = "(s2i, s1i, res)"
  let ?call = "(quat, s2i, s1i, res)"
  have cache: "so3_neighbor_cache self ?key
      = map_option (so3_direct g) (find (\<lambda>c. snd c = ?key) earlier)"
    using inv unfolding so3_inv_def by blast
  show "found = so3_direct g (first_call earlier ?call)"
  proof (cases "find (\<lambda>c. snd c = ?key) earlier")
    case None
    then show ?thesis
      using call cache by (simp add: get_neighbor_so3_def Let_def first_call_def so3_direct_def)
  next
    case (Some c)
    then show ?thesis
      using call cache by (simp add: get_neighbor_so3_def Let_def first_call_def)
  qed
  show "so3_inv g self' (earlier @ [?call])"
    unfolding so3_inv_def
  proof
    fix key
    show "so3_neighbor_cache self' key
        = map_option (so3_direct g) (find (\<lambda>c. snd c = key) (earlier @ [?call]))"
    proof (cases "find (\<lambda>c. snd c = ?key) earlier")
      case None
      then have "self' = self\<lparr>so3_neighbor_cache :=
          (so3_neighbor_cache self)(?key \<mapsto> so3_direct g ?call)\<rparr>"
        using call cache by (auto simp add: get_neighbor_so3_def Let_def so3_direct_def)
      then have new: "so3_neighbor_cache self' key
          = (if key = ?key then Some (so3_direct g ?call) else so3_neighbor_cache self key)"
        by simp
      show ?thesis
      proof (cases "key = ?key")
        case True
        then show ?thesis using new None by (simp add: find_append)
      next
        case False
        have "so3_neighbor_cache self key
            = map_option (so3_direct g) (find (\<lambda>c. snd c = key) earlier)"
          using inv unfolding so3_inv_def by blast
        then show ?thesis
          using new False by (cases "find (\<lambda>c. snd c = key) earlier") (auto simp add: find_append)
      qed
    next
      case (Some c)
      then have same: "self' = self"
        using call cache by (simp add: get_neighbor_so3_def Let_def)
      have old: "so3_neighbor_cache self key
            = map_option (so3_direct g) (find (\<lambda>c. snd c = key) earlier)"
        using inv unfolding so3_inv_def by blast
      show ?thesis
      proof (cases "find (\<lambda>c. snd c = key) earlier")
        case None
        then have "key \<noteq> ?key" using Some by auto
        then show ?thesis using old same None by (auto simp add: find_append)
      next
        case (Some c')
        then show ?thesis using old same by (simp add: find_append)
      qed
    qed
  qed
qed

lemma so3_queries_first_asked:
  "so3_inv g self earlier \<Longrightarrow> fst (so3_queries g self calls) = so3_first_asked g earlier calls"
proof (induction calls arbitrary: self earlier)
  case Nil
  then show ?case by simp
next
  case (Cons call calls)
  obtain quat s2i s1i res where c: "call = (quat, s2i, s1i, res)" by (cases call) auto
  obtain found self' where step: "get_neighbor_so3 g self quat s2i s1i res = (found, self')"
    by (cases "get_neighbor_so3 g self quat s2i s1i res") auto
  note facts = so3_step [OF Cons.prems step]
  have "fst (so3_queries g self' calls) = so3_first_asked g (earlier @ [call]) calls"
    using Cons.IH [OF facts(2)] by (simp add: c)
  then show ?case
    using facts(1) step by (simp add: c split_def)
qed

lemma find_SomeD: "find P xs = Some x \<Longrightarrow> P x \<and> x \<in> set xs"
  by (induction xs) (auto split: if_splits)

lemma first_call_cases:
  "first_call earlier call = call
   \<or> (first_call earlier call \<in> set earlier \<and> snd (first_call earlier call) = snd call)"
proof (cases "find (\<lambda>c. snd c = snd call) earlier")
  case None
  then show ?thesis by (simp add: first_call_def)
next
  case (Some c)
  then show ?thesis using find_SomeD [OF Some] by (simp add: first_call_def)
qed

lemma so3_first_asked_direct:
  assumes "\<forall>c\<in>set (earlier @ calls). \<forall>c'\<in>set (earlier @ calls).
             snd c = snd c' \<longrightarrow> so3_direct g c = so3_direct g c'"
  shows "so3_first_asked g earlier calls = map (so3_direct g) calls"
  using assms
proof (induction calls arbitrary: earlier)
  case Nil
  then show ?case by simp
next
  case (Cons call calls)
  have "so3_direct g (first_call earlier call) = so3_direct g call"
  proof -
    have "call \<in> set (earlier @ call # calls)" by simp
    moreover have "first_call earlier call = call \<or> first_call earlier call \<in> set (earlier @ call # calls)"
      using first_call_cases [of earlier call] by auto
    moreover have "snd (first_call earlier call) = snd call"
      using first_call_cases [of earlier call] by auto
    ultimately show ?thesis using Cons.prems by metis
  qed
  moreover have "(earlier @ [call]) @ calls = earlier @ call # calls" by simp
  then have "so3_first_asked g (earlier @ [call]) calls = map (so3_direct g) calls"
    using Cons.prems Cons.IH [of "earlier @ [call]"] by (simp only:)
  ultimately show ?case by simp
qed

lemma shift_step:
  assumes inv: "shift_inv g self0 self"
    and call: "get_neighbor_shift g self x y res = (found, self')"
  shows "found = shift_direct g self0 (x, y, res)" and "shift_inv g self0 self'"
proof -
  have ext: "t_extent self = t_extent self0" "t_ngrid self = t_ngrid self0"
    using inv unfolding shift_inv_def by blast+
  have old: "v = shift_direct g self0 key" if "shift_neighbor_cache self key = Some v" for key v
    using inv that unfolding shift_inv_def by blast
  have "found = shift_direct g self0 (x, y, res) \<and> shift_inv g self0 self'"
  proof (cases "shift_neighbor_cache self (x, y, res)")
    case None
    then have found: "found = shift_direct g self0 (x, y, res)"
      and self': "self' = self\<lparr>shift_neighbor_cache :=
          (shift_neighbor_cache self)((x, y, res) \<mapsto> found)\<rparr>"
      using call ext by (auto simp add: get_neighbor_shift_def Let_def shift_direct_def)
    have "shift_inv g self0 self'"
      unfolding shift_inv_def self' using ext old found by (simp del: split_paired_All)
    then show ?thesis using found by simp
  next
    case (Some v)
    then have "found = v" "self' = self"
      using call by (simp_all add: get_neighbor_shift_def Let_def)
    then show ?thesis using old [OF Some] inv by simp
  qed
  then show "found = shift_direct g self0 (x, y, res)" and "shift_inv g self0 self'"
    by simp_all
qed

lemma shift_queries_direct:
  "shift_inv g self0 self \<Longrightarrow>
     fst (shift_queries g self calls) = map (shift_direct g self0) calls"
proof (induction calls arbitrary: self)
  case Nil
  then show ?case by simp
next
  case (Cons call calls)
  obtain x y res where c: "call = (x, y, res)" by (cases call) auto
  obtain found self' where step: "get_neighbor_shift g self x y res = (found, self')"
    by (cases "get_neighbor_shift g self x y res") auto
  note facts = shift_step [OF Cons.prems step]
  show ?case
    using Cons.IH [OF facts(2)] facts(1) step by (simp add: c split_def)
qed

lemma so3_repeat:
  "get_neighbor_so3 g (snd (get_neighbor_so3 g self quat s2i s1i res)) quat' s2i s1i res
     = get_neighbor_so3 g self quat s2i s1i res"
proof (cases "so3_neighbor_cache self (s2i, s1i, res)")
  case None
  then show ?thesis by (simp add: get_neighbor_so3_def Let_def)
next
  case (Some found)
  then show ?thesis by (simp add: get_neighbor_so3_def Let_def)
qed

lemma shift_repeat:
  "get_neighbor_shift g (snd (get_neighbor_shift g self x y res)) x y res
     = get_neighbor_shift g self x y res"
proof (cases "shift_neighbor_cache self (x, y, res)")
  case None
  then show ?thesis by (simp add: get_neighbor_shift_def Let_def)
next
  case (Some found)
  then show ?thesis by (simp add: get_neighbor_shift_def Let_def)
qed

lemma replicate_8: "replicate 8 x = [x, x, x, x, x, x, x, x]"
  by (simp add: numeral_eq_Suc)

lemma demo_caches_empty:
  "so3_neighbor_cache demo_search = Map.empty" "shift_neighbor_cache demo_search = Map.empty"
  by (simp_all add: demo_search_def)


text \<open>
  Claim C9, as amended. On a fresh instance every call of \<open>get_neighbor_shift\<close> returns
  what \<open>shift_grid.get_neighbor\<close> computes for the cell at resolution \<open>res - 1\<close>, and
  every call of \<open>get_neighbor_so3\<close> returns what \<open>so3_grid.get_neighbor\<close> computes for
  the cell, the resolution and the quaternion the cell was first asked with; this is the
  direct computation for the call's own quaternion whenever calls for one cell and
  resolution have one answer. A repeated call for the same key returns the cached value
  and leaves the instance unchanged.
\<close>

theorem neighbor_cache_answers:
  "(so3_neighbor_cache self = Map.empty \<longrightarrow>
      fst (so3_queries g self calls) = so3_first_asked g [] calls)
   \<and> (so3_neighbor_cache self = Map.empty
        \<and> (\<forall>c\<in>set calls. \<forall>c'\<in>set calls. snd c = snd c' \<longrightarrow> so3_direct g c = so3_direct g c')
      \<longrightarrow> fst (so3_queries g self calls) = map (so3_direct g) calls)
   \<and> (shift_neighbor_cache self = Map.empty \<longrightarrow>
        fst (shift_queries g self shift_calls) = map (shift_direct g self) shift_calls)
   \<and> get_neighbor_so3 g (snd (get_neighbor_so3 g self quat s2i s1i res)) quat' s2i s1i res
       = get_neighbor_so3 g self quat s2i s1i res
   \<and> get_neighbor_shift g (snd (get_neighbor_shift g self x y res)) x y res
       = get_neighbor_shift g self x y res"
proof (intro conjI impI)
  assume "so3_neighbor_cache self = Map.empty"
  then show "fst (so3_queries g self calls) = so3_first_asked g [] calls"
    by (intro so3_queries_first_asked so3_inv_fresh)
next
  assume h: "so3_neighbor_cache self = Map.empty
        \<and> (\<forall>c\<in>set calls. \<forall>c'\<in>set calls. snd c = snd c' \<longrightarrow> so3_direct g c = so3_direct g c')"
  then have "fst (so3_queries g self calls) = so3_first_asked g [] calls"
    by (intro so3_queries_first_asked so3_inv_fresh) simp
  moreover have "so3_first_asked g [] calls = map (so3_direct g) calls"
  proof (rule so3_first_asked_direct)
    show "\<forall>c\<in>set ([] @ calls). \<forall>c'\<in>set ([] @ calls).
        snd c = snd c' \<longrightarrow> so3_direct g c = so3_direct g c'"
      using h unfolding append_Nil by blast
  qed
  ultimately show "fst (so3_queries g self calls) = map (so3_direct g) calls" by simp
next
  assume "shift_neighbor_cache self = Map.empty"
  then show "fst (shift_queries g self shift_calls) = map (shift_direct g self) shift_calls"
    by (intro shift_queries_direct shift_inv_fresh)
next
  show "get_neighbor_so3 g (snd (get_neighbor_so3 g self quat s2i s1i res)) quat' s2i s1i res
       = get_neighbor_so3 g self quat s2i s1i res"
    by (rule so3_repeat)
  show "get_neighbor_shift g (snd (get_neighbor_shift g self x y res)) x y res
       = get_neighbor_shift g self x y res"
    by (rule shift_repeat)
qed

theorem neighbor_cache_answers_witness:
  "fst (so3_queries demo_grids demo_search [([1, 0, 0, 0], 0, 0, 1), ([1, 0, 0, 0], 0, 0, 1)])
     = [so3_direct demo_grids ([1, 0, 0, 0], 0, 0, 1), so3_direct demo_grids ([1, 0, 0, 0], 0, 0, 1)]
   \<and> fst (shift_queries demo_grids demo_search [(0, 1, 1), (0, 1, 1)])
     = [shift_direct demo_grids demo_search (0, 1, 1), shift_direct demo_grids demo_search (0, 1, 1)]"
  using neighbor_cache_answers [of demo_search demo_grids
      "[([1, 0, 0, 0], 0, 0, 1), ([1, 0, 0, 0], 0, 0, 1)]" "[(0, 1, 1), (0, 1, 1)]"]
    demo_caches_empty
  by (simp add: first_call_def)


text \<open>
  Claim C9 as stated fails for the rotation cache, whose key leaves out the quaternion:
  a second call for the same cell with another quaternion gets the children computed for
  the first quaternion, which a collaborator that uses the quaternion does not return.
\<close>

theorem neighbor_cache_quaternion_counterexample:
  "so3_neighbor_cache demo_search = Map.empty
   \<and> fst (so3_queries demo_grids demo_search [([1, 0, 0, 0], 0, 0, 1), ([0, 1, 0, 0], 0, 0, 1)]) ! 1
       = so3_direct demo_grids ([1, 0, 0, 0], 0, 0, 1)
   \<and> fst (so3_direct demo_grids ([1, 0, 0, 0], 0, 0, 1))
       \<noteq> fst (so3_direct demo_grids ([0, 1, 0, 0], 0, 0, 1))"
  by (simp add: demo_search_def get_neighbor_so3_def so3_direct_def demo_grids_def Let_def
      replicate_8)

section \<open>Subdivision of a candidate set\<close>

lemma subdivide_shapes:
  assumes "fst (subdivide g self quat q_ind t_ind cur_res) = Inr (quat', q_ind', t_ind', rot, trans')"
  shows "\<exists>N. shape quat = [N, 4] \<and> shape q_ind = [N, 2] \<and> shape t_ind = [N, 2]
           \<and> shape quat' = [N, 8, 4] \<and> shape q_ind' = [N, 8, 2] \<and> shape t_ind' = [N, 4, 2]
           \<and> shape rot = [N * 8, 3, 3] \<and> shape trans' = [N * 4, 2]"
proof (cases "shape quat")
  case Nil
  then show ?thesis using assms by (simp add: subdivide_def)
next
  case (Cons N rest)
  show ?thesis
  proof (cases "shape quat \<noteq> [N, 4] \<or> shape q_ind \<noteq> [N, 2] \<or> shape t_ind \<noteq> [N, 2]")
    case True
    then show ?thesis using assms Cons by (simp add: subdivide_def)
  next
    case False
    obtain so3n self1 where q1: "so3_queries g self
        (map (\<lambda>i. (array_row quat i, array_row q_ind i ! 0, array_row q_ind i ! 1, cur_res)) [0..<N]) = (so3n, self1)"
      by (cases "so3_queries g self
        (map (\<lambda>i. (array_row quat i, array_row q_ind i ! 0, array_row q_ind i ! 1, cur_res)) [0..<N])") auto
    let ?first = "ebind (np_array (map fst so3n)) (\<lambda>quat'.
                    ebind (np_array (map snd so3n)) (\<lambda>q_ind'.
                    ebind (rows_of_width RuntimeError 4 quat') (\<lambda>flat_quat.
                      Inr (quat', q_ind', quaternions_to_SO3 g flat_quat))))"
    show ?thesis
    proof (cases ?first)
      case (Inl e)
      then show ?thesis using assms Cons False q1 by (simp add: subdivide_def)
    next
      case (Inr triple)
      obtain a b c where triple: "triple = (a, b, c)" by (cases triple) auto
      obtain shn self2 where q2: "shift_queries g self1
          (map (\<lambda>i. (array_row t_ind i ! 0, array_row t_ind i ! 1, cur_res)) [0..<N]) = (shn, self2)"
        by (cases "shift_queries g self1
          (map (\<lambda>i. (array_row t_ind i ! 0, array_row t_ind i ! 1, cur_res)) [0..<N])") auto
      have "ebind (np_array (map fst shn)) (\<lambda>stacked.
              ebind (rows_of_width ValueError 2 stacked) (\<lambda>trans.
              ebind (np_array (map snd shn)) (\<lambda>t_ind'.
                if shape a = [N, 8, 4] \<and> shape b = [N, 8, 2]
                   \<and> shape t_ind' = [N, 4, 2] \<and> shape c = [N * 8, 3, 3]
                   \<and> shape trans = [N * 4, 2]
                then Inr (a, b, t_ind', c, trans)
                else Inl AssertionError)))
          = Inr (quat', q_ind', t_ind', rot, trans')"
        using assms Cons False q1 Inr triple q2 by (simp add: subdivide_def)
      then show ?thesis
        using False by (auto simp add: ebind_Inr split: if_splits)
    qed
  qed
qed

lemma np_array_uniform:
  assumes "arrays \<noteq> []" "\<forall>a\<in>set arrays. shape a = s"
  shows "np_array arrays = Inr \<lparr>shape = length arrays # s, data = concat (map data arrays)\<rparr>"
proof (cases arrays)
  case Nil
  then show ?thesis using assms(1) by simp
next
  case (Cons a rest)
  then show ?thesis using assms(2) by (simp add: np_array_def list_all_iff)
qed

lemma concat_uniform_slice:
  "\<forall>xs\<in>set xss. length xs = k \<Longrightarrow> i < length xss \<Longrightarrow>
     take k (drop (i * k) (concat xss)) = xss ! i"
proof (induction xss arbitrary: i)
  case Nil
  then show ?case by simp
next
  case (Cons xs xss)
  show ?case
  proof (cases i)
    case 0
    then show ?thesis using Cons.prems by simp
  next
    case (Suc j)
    then have "take k (drop (j * k) (concat xss)) = xss ! j"
      using Cons.prems by (intro Cons.IH) simp_all
    then show ?thesis using Cons.prems Suc by simp
  qed
qed

lemma so3_first_asked_length [simp]: "length (so3_first_asked g earlier calls) = length calls"
  by (induction calls arbitrary: earlier) simp_all

lemma so3_first_asked_nth:
  "i < length calls \<Longrightarrow>
     so3_first_asked g earlier calls ! i
       = so3_direct g (first_call (earlier @ take i calls) (calls ! i))"
proof (induction calls arbitrary: earlier i)
  case Nil
  then show ?case by simp
next
  case (Cons call calls)
  show ?case
  proof (cases i)
    case 0
    then show ?thesis by simp
  next
    case (Suc j)
    then show ?thesis using Cons.prems Cons.IH [of j "earlier @ [call]"] by simp
  qed
qed

lemma so3_queries_keeps_shift:
  "shift_inv g self0 self \<Longrightarrow> shift_inv g self0 (snd (so3_queries g self calls))"
proof (induction calls arbitrary: self)
  case Nil
  then show ?case by simp
next
  case (Cons call calls)
  obtain quat s2i s1i res where c: "call = (quat, s2i, s1i, res)" by (cases call) auto
  have "shift_inv g self0 (snd (get_neighbor_so3 g self quat s2i s1i res))"
    using Cons.prems
    by (cases "so3_neighbor_cache self (s2i, s1i, res)")
       (simp_all add: get_neighbor_so3_def Let_def shift_inv_def del: split_paired_All)
  then have "shift_inv g self0
      (snd (so3_queries g (snd (get_neighbor_so3 g self quat s2i s1i res)) calls))"
    by (rule Cons.IH)
  then show ?case by (simp add: c split_def Let_def)
qed

lemma so3_answers:
  assumes "so3_inv g self earlier"
  shows "length (fst (so3_queries g self calls)) = length calls"
    and "i < length calls \<Longrightarrow>
           \<exists>q0. fst (so3_queries g self calls) ! i = so3_direct g (q0, snd (calls ! i))"
proof -
  have eq: "fst (so3_queries g self calls) = so3_first_asked g earlier calls"
    by (rule so3_queries_first_asked [OF assms])
  show "length (fst (so3_queries g self calls)) = length calls" by (simp add: eq)
  assume i: "i < length calls"
  let ?c = "first_call (earlier @ take i calls) (calls ! i)"
  have "snd ?c = snd (calls ! i)"
    using first_call_cases [of "earlier @ take i calls" "calls ! i"] by auto
  then have "?c = (fst ?c, snd (calls ! i))" by (metis prod.collapse)
  then have "so3_first_asked g earlier calls ! i = so3_direct g (fst ?c, snd (calls ! i))"
    using so3_first_asked_nth [OF i, of g earlier] by simp
  then show "\<exists>q0. fst (so3_queries g self calls) ! i = so3_direct g (q0, snd (calls ! i))"
    unfolding eq by blast
qed

lemma rows_of_width_ok:
  "prod_list (shape a) = n * k \<Longrightarrow> 0 < k \<Longrightarrow>
     rows_of_width err k a = Inr \<lparr>shape = [n, k], data = data a\<rparr>"
  by (simp add: rows_of_width_def)

lemma stacked_slices:
  assumes "\<forall>a\<in>set arrays. shape a = s \<and> well_shaped a" "i < length arrays"
  shows "take (prod_list s) (drop (i * prod_list s) (concat (map data arrays)))
           = data (arrays ! i)"
proof -
  have "\<forall>xs\<in>set (map data arrays). length xs = prod_list s"
    using assms(1) by (auto simp add: well_shaped_def)
  then have "take (prod_list s) (drop (i * prod_list s) (concat (map data arrays)))
      = map data arrays ! i"
    using assms(2) by (intro concat_uniform_slice) simp_all
  then show ?thesis using assms(2) by simp
qed

lemma stacked_well_shaped:
  assumes "\<forall>a\<in>set arrays. shape a = s \<and> well_shaped a"
  shows "length (concat (map data arrays)) = length arrays * prod_list s"
proof -
  have "\<forall>xs\<in>set (map data arrays). length xs = prod_list s"
    using assms by (auto simp add: well_shaped_def)
  then have "length (concat (map data arrays)) = length (map data arrays) * prod_list s"
    by (rule concat_uniform_length)
  then show ?thesis by simp
qed

lemma subdivide_conforming:
  assumes conf: "grids_conform g"
    and shapes: "shape quat = [N, 4]" "shape q_ind = [N, 2]" "shape t_ind = [N, 2]"
    and N: "0 < N"
    and so3: "so3_inv g self earlier" and shift: "shift_inv g self self"
  shows "\<exists>quat' q_ind' t_ind' rot trans' self'.
      subdivide g self quat q_ind t_ind cur_res = (Inr (quat', q_ind', t_ind', rot, trans'), self')
      \<and> shape quat' = [N, 8, 4] \<and> shape q_ind' = [N, 8, 2] \<and> shape t_ind' = [N, 4, 2]
      \<and> shape rot = [N * 8, 3, 3] \<and> shape trans' = [N * 4, 2]
      \<and> length (data quat') = N * 32 \<and> length (data q_ind') = N * 16
      \<and> length (data t_ind') = N * 8 \<and> length (data trans') = N * 8
      \<and> rot = quaternions_to_SO3 g \<lparr>shape = [N * 8, 4], data = data quat'\<rparr>
      \<and> (\<forall>i<N. \<exists>q0.
            take 32 (drop (i * 32) (data quat'))
              = data (fst (so3_get_neighbor g q0 (array_row q_ind i ! 0) (array_row q_ind i ! 1) cur_res))
            \<and> take 16 (drop (i * 16) (data q_ind'))
              = data (snd (so3_get_neighbor g q0 (array_row q_ind i ! 0) (array_row q_ind i ! 1) cur_res)))
      \<and> (\<forall>i<N.
            take 8 (drop (i * 8) (data trans'))
              = data (fst (shift_get_neighbor g (array_row t_ind i ! 0) (array_row t_ind i ! 1) (cur_res - 1)
                             (t_extent self) (t_ngrid self)))
            \<and> take 8 (drop (i * 8) (data t_ind'))
              = data (snd (shift_get_neighbor g (array_row t_ind i ! 0) (array_row t_ind i ! 1) (cur_res - 1)
                             (t_extent self) (t_ngrid self))))"
proof -
  let ?calls = "map (\<lambda>i. (array_row quat i, array_row q_ind i ! 0, array_row q_ind i ! 1, cur_res)) [0..<N]"
  let ?tcalls = "map (\<lambda>i. (array_row t_ind i ! 0, array_row t_ind i ! 1, cur_res)) [0..<N]"
  obtain so3n self1 where q1: "so3_queries g self ?calls = (so3n, self1)"
    by (cases "so3_queries g self ?calls") auto
  obtain shn self2 where q2: "shift_queries g self1 ?tcalls = (shn, self2)"
    by (cases "shift_queries g self1 ?tcalls") auto
  have len1: "length so3n = N"
    using so3_answers(1) [OF so3, of ?calls] q1 by simp
  have ans1: "\<exists>q0. so3n ! i = so3_get_neighbor g q0 (array_row q_ind i ! 0) (array_row q_ind i ! 1) cur_res"
    if "i < N" for i
  proof -
    have ci: "?calls ! i = (array_row quat i, array_row q_ind i ! 0, array_row q_ind i ! 1, cur_res)"
      using that by simp
    have "i < length ?calls" using that by simp
    then obtain q0 where "fst (so3_queries g self ?calls) ! i
        = so3_direct g (q0, snd (?calls ! i))"
      using so3_answers(2) [OF so3] by blast
    then have "so3n ! i = so3_direct g (q0, array_row q_ind i ! 0, array_row q_ind i ! 1, cur_res)"
      unfolding q1 ci by simp
    then show ?thesis unfolding so3_direct_def by auto
  qed
  have conf1: "shape (fst n) = [8, 4] \<and> well_shaped (fst n)"
       "shape (snd n) = [8, 2] \<and> well_shaped (snd n)" if "n \<in> set so3n" for n
  proof -
    from that obtain i where "i < length so3n" "so3n ! i = n"
      unfolding in_set_conv_nth by blast
    then have "i < N" "n = so3n ! i" using len1 by simp_all
    then obtain q0 where "n = so3_get_neighbor g q0 (array_row q_ind i ! 0) (array_row q_ind i ! 1) cur_res"
      using ans1 by blast
    then show "shape (fst n) = [8, 4] \<and> well_shaped (fst n)"
       "shape (snd n) = [8, 2] \<and> well_shaped (snd n)"
      using conf unfolding grids_conform_def by blast+
  qed
  have inv1: "shift_inv g self self1"
    using so3_queries_keeps_shift [OF shift, of ?calls] q1 by simp
  have shn: "shn = map (shift_direct g self) ?tcalls"
    using shift_queries_direct [OF inv1, of ?tcalls] q2 by simp
  have len2: "length shn = N" by (simp add: shn)
  have ans2: "shn ! i = shift_get_neighbor g (array_row t_ind i ! 0) (array_row t_ind i ! 1) (cur_res - 1)
                             (t_extent self) (t_ngrid self)" if "i < N" for i
  proof -
    have "shn ! i = shift_direct g self (array_row t_ind i ! 0, array_row t_ind i ! 1, cur_res)"
      using that unfolding shn by simp
    then show ?thesis unfolding shift_direct_def by simp
  qed
  have conf2: "shape (fst n) = [4, 2] \<and> well_shaped (fst n)"
       "shape (snd n) = [4, 2] \<and> well_shaped (snd n)" if "n \<in> set shn" for n
  proof -
    from that obtain i where "i < length shn" "shn ! i = n"
      unfolding in_set_conv_nth by blast
    then have "i < N" "n = shn ! i" using len2 by simp_all
    then have "n = shift_get_neighbor g (array_row t_ind i ! 0) (array_row t_ind i ! 1) (cur_res - 1)
                             (t_extent self) (t_ngrid self)"
      using ans2 by blast
    then show "shape (fst n) = [4, 2] \<and> well_shaped (fst n)"
       "shape (snd n) = [4, 2] \<and> well_shaped (snd n)"
      using conf unfolding grids_conform_def by blast+
  qed
  define quat' where "quat' = \<lparr>shape = [N, 8, 4], data = concat (map data (map fst so3n))\<rparr>"
  define q_ind' where "q_ind' = \<lparr>shape = [N, 8, 2], data = concat (map data (map snd so3n))\<rparr>"
  define stacked where "stacked = \<lparr>shape = [N, 4, 2], data = concat (map data (map fst shn))\<rparr>"
  define t_ind' where "t_ind' = \<lparr>shape = [N, 4, 2], data = concat (map data (map snd shn))\<rparr>"
  define trans' where "trans' = \<lparr>shape = [N * 4, 2], data = data stacked\<rparr>"
  define flat_quat where "flat_quat = \<lparr>shape = [N * 8, 4], data = data quat'\<rparr>"
  define rot where "rot = quaternions_to_SO3 g flat_quat"
  have ne: "map fst so3n \<noteq> []" "map snd so3n \<noteq> []" "map fst shn \<noteq> []" "map snd shn \<noteq> []"
    using len1 len2 N by auto
  have a1: "\<forall>a\<in>set (map fst so3n). shape a = [8, 4] \<and> well_shaped a"
    using conf1(1) by auto
  have a2: "\<forall>a\<in>set (map snd so3n). shape a = [8, 2] \<and> well_shaped a"
    using conf1(2) by auto
  have a3: "\<forall>a\<in>set (map fst shn). shape a = [4, 2] \<and> well_shaped a"
    using conf2(1) by auto
  have a4: "\<forall>a\<in>set (map snd shn). shape a = [4, 2] \<and> well_shaped a"
    using conf2(2) by auto
  have s1: "np_array (map fst so3n) = Inr quat'"
  proof -
    have "\<forall>a\<in>set (map fst so3n). shape a = [8, 4]" using a1 by blast
    then have "np_array (map fst so3n)
        = Inr \<lparr>shape = length (map fst so3n) # [8, 4], data = concat (map data (map fst so3n))\<rparr>"
      by (rule np_array_uniform [OF ne(1)])
    then show ?thesis unfolding quat'_def using len1 by simp
  qed
  have s2: "np_array (map snd so3n) = Inr q_ind'"
  proof -
    have "\<forall>a\<in>set (map snd so3n). shape a = [8, 2]" using a2 by blast
    then have "np_array (map snd so3n)
        = Inr \<lparr>shape = length (map snd so3n) # [8, 2], data = concat (map data (map snd so3n))\<rparr>"
      by (rule np_array_uniform [OF ne(2)])
    then show ?thesis unfolding q_ind'_def using len1 by simp
  qed
  have s3: "np_array (map fst shn) = Inr stacked"
  proof -
    have "\<forall>a\<in>set (map fst shn). shape a = [4, 2]" using a3 by blast
    then have "np_array (map fst shn)
        = Inr \<lparr>shape = length (map fst shn) # [4, 2], data = concat (map data (map fst shn))\<rparr>"
      by (rule np_array_uniform [OF ne(3)])
    then show ?thesis unfolding stacked_def using len2 by simp
  qed
  have s4: "np_array (map snd shn) = Inr t_ind'"
  proof -
    have "\<forall>a\<in>set (map snd shn). shape a = [4, 2]" using a4 by blast
    then have "np_array (map snd shn)
        = Inr \<lparr>shape = length (map snd shn) # [4, 2], data = concat (map data (map snd shn))\<rparr>"
      by (rule np_array_uniform [OF ne(4)])
    then show ?thesis unfolding t_ind'_def using len2 by simp
  qed
  have v1: "rows_of_width RuntimeError 4 quat' = Inr flat_quat"
    unfolding flat_quat_def by (rule rows_of_width_ok) (simp_all add: quat'_def)
  have v2: "rows_of_width ValueError 2 stacked = Inr trans'"
    unfolding trans'_def by (rule rows_of_width_ok) (simp_all add: stacked_def)
  have rot_shape: "shape rot = [N * 8, 3, 3]"
    using conf unfolding grids_conform_def rot_def by (simp add: flat_quat_def)
  have first: "ebind (np_array (map fst so3n)) (\<lambda>quat'.
                    ebind (np_array (map snd so3n)) (\<lambda>q_ind'.
                    ebind (rows_of_width RuntimeError 4 quat') (\<lambda>flat_quat.
                      Inr (quat', q_ind', quaternions_to_SO3 g flat_quat))))
               = Inr (quat', q_ind', rot)"
    by (simp add: s1 s2 v1 rot_def)
  have run: "subdivide g self quat q_ind t_ind cur_res
      = (Inr (quat', q_ind', t_ind', rot, trans'), self2)"
    unfolding subdivide_def shapes list.case q1 prod.case Let_def first sum.case q2
    by (simp add: s3 s4 v2 rot_shape) (simp add: quat'_def q_ind'_def t_ind'_def trans'_def)
  have lens: "length (data quat') = N * 32" "length (data q_ind') = N * 16"
      "length (data t_ind') = N * 8" "length (data trans') = N * 8"
    using stacked_well_shaped [OF a1] stacked_well_shaped [OF a2]
      stacked_well_shaped [OF a3] stacked_well_shaped [OF a4] len1 len2
    by (simp_all add: quat'_def q_ind'_def t_ind'_def trans'_def stacked_def)
  have rot_children: "\<exists>q0.
            take 32 (drop (i * 32) (data quat'))
              = data (fst (so3_get_neighbor g q0 (array_row q_ind i ! 0) (array_row q_ind i ! 1) cur_res))
            \<and> take 16 (drop (i * 16) (data q_ind'))
              = data (snd (so3_get_neighbor g q0 (array_row q_ind i ! 0) (array_row q_ind i ! 1) cur_res))"
    if i: "i < N" for i
  proof -
    obtain q0 where q0: "so3n ! i
        = so3_get_neighbor g q0 (array_row q_ind i ! 0) (array_row q_ind i ! 1) cur_res"
      using ans1 [OF i] by blast
    have "take 32 (drop (i * 32) (data quat')) = data (fst (so3n ! i))"
      using stacked_slices [OF a1, of i] i len1 by (simp add: quat'_def)
    moreover have "take 16 (drop (i * 16) (data q_ind')) = data (snd (so3n ! i))"
      using stacked_slices [OF a2, of i] i len1 by (simp add: q_ind'_def)
    ultimately show ?thesis using q0 by auto
  qed
  have shift_children: "take 8 (drop (i * 8) (data trans'))
              = data (fst (shift_get_neighbor g (array_row t_ind i ! 0) (array_row t_ind i ! 1) (cur_res - 1)
                             (t_extent self) (t_ngrid self)))
            \<and> take 8 (drop (i * 8) (data t_ind'))
              = data (snd (shift_get_neighbor g (array_row t_ind i ! 0) (array_row t_ind i ! 1) (cur_res - 1)
                             (t_extent self) (t_ngrid self)))"
    if i: "i < N" for i
  proof -
    have "take 8 (drop (i * 8) (data trans')) = data (fst (shn ! i))"
      using stacked_slices [OF a3, of i] i len2 by (simp add: trans'_def stacked_def)
    moreover have "take 8 (drop (i * 8) (data t_ind')) = data (snd (shn ! i))"
      using stacked_slices [OF a4, of i] i len2 by (simp add: t_ind'_def)
    ultimately show ?thesis using ans2 [OF i] by simp
  qed
  have shapes': "shape quat' = [N, 8, 4]" "shape q_ind' = [N, 8, 2]" "shape t_ind' = [N, 4, 2]"
      "shape trans' = [N * 4, 2]"
    by (simp_all add: quat'_def q_ind'_def t_ind'_def trans'_def)
  have rot_eq: "rot = quaternions_to_SO3 g \<lparr>shape = [N * 8, 4], data = data quat'\<rparr>"
    by (simp add: rot_def flat_quat_def)
  show ?thesis
    using run shapes' rot_shape lens rot_eq rot_children shift_children by blast
qed

lemma demo_grids_conform: "grids_conform demo_grids"
proof -
  have "8 * min (length quat) 4 + 8 * (4 - length quat) = 32" for quat :: "real list"
    by (cases "length quat \<le> 4") (simp_all add: min_def)
  then show ?thesis
    by (simp add: grids_conform_def demo_grids_def well_shaped_def length_concat
        sum_list_replicate)
qed


text \<open>
  Claim C2, as amended. Whenever \<open>subdivide\<close> returns, its results have the shapes
  \<open>N x 8 x 4\<close>, \<open>N x 8 x 2\<close>, \<open>N x 4 x 2\<close>, \<open>N * 8 x 3 x 3\<close> and \<open>N * 4 x 2\<close> for
  arguments of the shapes \<open>N x 4\<close>, \<open>N x 2\<close>, \<open>N x 2\<close>: any deviation raises. For a
  candidate set of \<open>N \<ge> 1\<close> candidates, grid collaborators that keep their contract and
  caches filled by them, it does return; the children of candidate \<open>i\<close> are those the
  rotation grid gives for its cell at the current resolution (for the quaternion the
  cell was first asked with) and those the translation grid gives for its cell, so the
  child indices are as valid as the collaborators make them.
\<close>

theorem subdivide_fan_out:
  "(\<forall>quat' q_ind' t_ind' rot trans'.
      fst (subdivide g self quat q_ind t_ind cur_res) = Inr (quat', q_ind', t_ind', rot, trans')
      \<longrightarrow> (\<exists>N. shape quat = [N, 4] \<and> shape q_ind = [N, 2] \<and> shape t_ind = [N, 2]
           \<and> shape quat' = [N, 8, 4] \<and> shape q_ind' = [N, 8, 2] \<and> shape t_ind' = [N, 4, 2]
           \<and> shape rot = [N * 8, 3, 3] \<and> shape trans' = [N * 4, 2]))
   \<and> (grids_conform g \<and> shape quat = [N, 4] \<and> shape q_ind = [N, 2] \<and> shape t_ind = [N, 2]
        \<and> 0 < N \<and> so3_inv g self earlier \<and> shift_inv g self self
      \<longrightarrow> (\<exists>quat' q_ind' t_ind' rot trans' self'.
      subdivide g self quat q_ind t_ind cur_res = (Inr (quat', q_ind', t_ind', rot, trans'), self')
      \<and> shape quat' = [N, 8, 4] \<and> shape q_ind' = [N, 8, 2] \<and> shape t_ind' = [N, 4, 2]
      \<and> shape rot = [N * 8, 3, 3] \<and> shape trans' = [N * 4, 2]
      \<and> length (data quat') = N * 32 \<and> length (data q_ind') = N * 16
      \<and> length (data t_ind') = N * 8 \<and> length (data trans') = N * 8
      \<and> rot = quaternions_to_SO3 g \<lparr>shape = [N * 8, 4], data = data quat'\<rparr>
      \<and> (\<forall>i<N. \<exists>q0.
            take 32 (drop (i * 32) (data quat'))
              = data (fst (so3_get_neighbor g q0 (array_row q_ind i ! 0) (array_row q_ind i ! 1) cur_res))
            \<and> take 16 (drop (i * 16) (data q_ind'))
              = data (snd (so3_get_neighbor g q0 (array_row q_ind i ! 0) (array_row q_ind i ! 1) cur_res)))
      \<and> (\<forall>i<N.
            take 8 (drop (i * 8) (data trans'))
              = data (fst (shift_get_neighbor g (array_row t_ind i ! 0) (array_row t_ind i ! 1) (cur_res - 1)
                             (t_extent self) (t_ngrid self)))
            \<and> take 8 (drop (i * 8) (data t_ind'))
              = data (snd (shift_get_neighbor g (array_row t_ind i ! 0) (array_row t_ind i ! 1) (cur_res - 1)
                             (t_extent self) (t_ngrid self))))))"
proof (intro conjI allI impI)
  fix quat' q_ind' t_ind' rot trans'
  assume "fst (subdivide g self quat q_ind t_ind cur_res) = Inr (quat', q_ind', t_ind', rot, trans')"
  then show "\<exists>N. shape quat = [N, 4] \<and> shape q_ind = [N, 2] \<and> shape t_ind = [N, 2]
           \<and> shape quat' = [N, 8, 4] \<and> shape q_ind' = [N, 8, 2] \<and> shape t_ind' = [N, 4, 2]
           \<and> shape rot = [N * 8, 3, 3] \<and> shape trans' = [N * 4, 2]"
    by (rule subdivide_shapes)
next
  assume h: "grids_conform g \<and> shape quat = [N, 4] \<and> shape q_ind = [N, 2] \<and> shape t_ind = [N, 2]
        \<and> 0 < N \<and> so3_inv g self earlier \<and> shift_inv g self self"
  show "\<exists>quat' q_ind' t_ind' rot trans' self'.
      subdivide g self quat q_ind t_ind cur_res = (Inr (quat', q_ind', t_ind', rot, trans'), self')
      \<and> shape quat' = [N, 8, 4] \<and> shape q_ind' = [N, 8, 2] \<and> shape t_ind' = [N, 4, 2]
      \<and> shape rot = [N * 8, 3, 3] \<and> shape trans' = [N * 4, 2]
      \<and> length (data quat') = N * 32 \<and> length (data q_ind') = N * 16
      \<and> length (data t_ind') = N * 8 \<and> length (data trans') = N * 8
      \<and> rot = quaternions_to_SO3 g \<lparr>shape = [N * 8, 4], data = data quat'\<rparr>
      \<and> (\<forall>i<N. \<exists>q0.
            take 32 (drop (i * 32) (data quat'))
              = data (fst (so3_get_neighbor g q0 (array_row q_ind i ! 0) (array_row q_ind i ! 1) cur_res))
            \<and> take 16 (drop (i * 16) (data q_ind'))
              = data (snd (so3_get_neighbor g q0 (array_row q_ind i ! 0) (array_row q_ind i ! 1) cur_res)))
      \<and> (\<forall>i<N.
            take 8 (drop (i * 8) (data trans'))
              = data (fst (shift_get_neighbor g (array_row t_ind i ! 0) (array_row t_ind i ! 1) (cur_res - 1)
                             (t_extent self) (t_ngrid self)))
            \<and> take 8 (drop (i * 8) (data t_ind'))
              = data (snd (shift_get_neighbor g (array_row t_ind i ! 0) (array_row t_ind i ! 1) (cur_res - 1)
                             (t_extent self) (t_ngrid self))))"
    by (rule subdivide_conforming) (use h in blast)+
qed

theorem subdivide_fan_out_witness:
  "\<exists>quat' q_ind' t_ind' rot trans' self'.
      subdivide demo_grids demo_search \<lparr>shape = [1, 4], data = [1, 0, 0, 0]\<rparr>
          \<lparr>shape = [1, 2], data = [0, 0]\<rparr> \<lparr>shape = [1, 2], data = [0, 1]\<rparr> 1
        = (Inr (quat', q_ind', t_ind', rot, trans'), self')
      \<and> shape quat' = [1, 8, 4] \<and> shape q_ind' = [1, 8, 2] \<and> shape t_ind' = [1, 4, 2]
      \<and> shape rot = [8, 3, 3] \<and> shape trans' = [4, 2]"
proof -
  have pre: "grids_conform demo_grids
      \<and> shape \<lparr>shape = [1, 4], data = [1, 0, 0, 0 :: real]\<rparr> = [1, 4]
      \<and> shape \<lparr>shape = [1, 2], data = [0, 0 :: int]\<rparr> = [1, 2]
      \<and> shape \<lparr>shape = [1, 2], data = [0, 1 :: int]\<rparr> = [1, 2]
      \<and> 0 < (1 :: nat) \<and> so3_inv demo_grids demo_search [] \<and> shift_inv demo_grids demo_search demo_search"
    using demo_grids_conform so3_inv_fresh [OF demo_caches_empty(1)]
      shift_inv_fresh [OF demo_caches_empty(2)]
    by simp
  note ex = subdivide_fan_out [of demo_grids demo_search "\<lparr>shape = [1, 4], data = [1, 0, 0, 0]\<rparr>"
        "\<lparr>shape = [1, 2], data = [0, 0]\<rparr>" "\<lparr>shape = [1, 2], data = [0, 1]\<rparr>" 1 1 "[]",
        THEN conjunct2, THEN mp, OF pre]
  from ex obtain quat' q_ind' t_ind' rot trans' self' where
    run: "subdivide demo_grids demo_search \<lparr>shape = [1, 4], data = [1, 0, 0, 0]\<rparr>
          \<lparr>shape = [1, 2], data = [0, 0]\<rparr> \<lparr>shape = [1, 2], data = [0, 1]\<rparr> 1
        = (Inr (quat', q_ind', t_ind', rot, trans'), self')"
    and sh: "shape quat' = [1, 8, 4]" "shape q_ind' = [1, 8, 2]" "shape t_ind' = [1, 4, 2]"
      "shape rot = [1 * 8, 3, 3]" "shape trans' = [1 * 4, 2]"
    by (elim exE conjE) (rule that)
  have "shape rot = [8, 3, 3]" "shape trans' = [4, 2]" using sh(4,5) by simp_all
  then show ?thesis using run sh(1,2,3) by (intro exI conjI)
qed


text \<open>
  Claim C2 as stated fails for the empty candidate set: \<open>np.array([])\<close> has the shape
  \<open>(0,)\<close>, not \<open>(0, 8, 4)\<close>, and the assertion of line 231 fails.
\<close>

theorem subdivide_empty_counterexample:
  "grids_conform demo_grids
   \<and> subdivide demo_grids demo_search \<lparr>shape = [0, 4], data = []\<rparr>
          \<lparr>shape = [0, 2], data = []\<rparr> \<lparr>shape = [0, 2], data = []\<rparr> 1
        = (Inl AssertionError, demo_search)"
  using demo_grids_conform
  by (simp add: subdivide_def np_array_def rows_of_width_def)

section \<open>The driver and the mode of the render model\<close>

lemma get_neighbor_so3_training:
  "model_training (snd (get_neighbor_so3 g self quat s2i s1i res)) = model_training self"
  by (cases "so3_neighbor_cache self (s2i, s1i, res)")
     (simp_all add: get_neighbor_so3_def Let_def)

lemma get_neighbor_shift_training:
  "model_training (snd (get_neighbor_shift g self x y res)) = model_training self"
  by (cases "shift_neighbor_cache self (x, y, res)")
     (simp_all add: get_neighbor_shift_def Let_def)

lemma so3_queries_training:
  "model_training (snd (so3_queries g self calls)) = model_training self"
proof (induction calls arbitrary: self)
  case Nil
  then show ?case by simp
next
  case (Cons call calls)
  obtain quat s2i s1i res where c: "call = (quat, s2i, s1i, res)" by (cases call) auto
  show ?case
    using Cons.IH [of "snd (get_neighbor_so3 g self quat s2i s1i res)"]
    by (simp add: c split_def Let_def get_neighbor_so3_training)
qed

lemma shift_queries_training:
  "model_training (snd (shift_queries g self calls)) = model_training self"
proof (induction calls arbitrary: self)
  case Nil
  then show ?case by simp
next
  case (Cons call calls)
  obtain x y res where c: "call = (x, y, res)" by (cases call) auto
  show ?case
    using Cons.IH [of "snd (get_neighbor_shift g self x y res)"]
    by (simp add: c split_def Let_def get_neighbor_shift_training)
qed

lemma subdivide_training:
  "model_training (snd (subdivide g self quat q_ind t_ind cur_res)) = model_training self"
proof (cases "shape quat")
  case Nil
  then show ?thesis by (simp add: subdivide_def)
next
  case (Cons N rest)
  let ?q1 = "so3_queries g self
        (map (\<lambda>i. (array_row quat i, array_row q_ind i ! 0, array_row q_ind i ! 1, cur_res)) [0..<N])"
  let ?q2 = "shift_queries g (snd ?q1)
        (map (\<lambda>i. (array_row t_ind i ! 0, array_row t_ind i ! 1, cur_res)) [0..<N])"
  have t1: "model_training (snd ?q1) = model_training self" by (rule so3_queries_training)
  have t2: "model_training (snd ?q2) = model_training self"
    using shift_queries_training [of g "snd ?q1"] t1 by simp
  have "snd (subdivide g self quat q_ind t_ind cur_res) = self
      \<or> snd (subdivide g self quat q_ind t_ind cur_res) = snd ?q1
      \<or> snd (subdivide g self quat q_ind t_ind cur_res) = snd ?q2"
    unfolding subdivide_def Cons list.case
    by (simp add: split_def Let_def split: sum.splits)
  then show ?thesis using t1 t2 by auto
qed

lemma refine_step_training:
  "model_training (snd (refine_step env self images z images_tilt niter iter st))
     = model_training self"
proof -
  let ?sub = "subdivide (env_grids env) self (cur_quat st) (cur_q_ind st) (cur_t_ind st) iter"
  have "snd (refine_step env self images z images_tilt niter iter st) = self
      \<or> snd (refine_step env self images z images_tilt niter iter st) = snd ?sub"
    unfolding refine_step_def Let_def
    by (simp add: split_def split: sum.splits)
  then show ?thesis using subdivide_training [of "env_grids env" self] by auto
qed

lemma refine_loop_training:
  "model_training (snd (refine_loop env self images z images_tilt niter iters st))
     = model_training self"
proof (induction iters arbitrary: self st)
  case Nil
  then show ?case by simp
next
  case (Cons iter iters)
  obtain r self' where step: "refine_step env self images z images_tilt niter iter st = (r, self')"
    by (cases "refine_step env self images z images_tilt niter iter st") auto
  have t: "model_training self' = model_training self"
    using refine_step_training [of env self images z images_tilt niter iter st] step by simp
  show ?case
  proof (cases r)
    case (Inl e)
    then show ?thesis using step t by simp
  next
    case (Inr st')
    then show ?thesis using step t Cons.IH [of self' st'] by simp
  qed
qed

lemma opt_theta_trans_training:
  "model_training (snd (opt_theta_trans env self images z images_tilt niter init_poses))
     = model_training self"
proof (cases "model_training self")
  case True
  then show ?thesis by (simp add: opt_theta_trans_def)
next
  case False
  let ?start = "ebind (first_candidates env self images z images_tilt niter init_poses)
                  (\<lambda>(kB, kT, kQ, loss).
                ebind (pack_poses (length images) (nkeptposes self) kT kQ) (\<lambda>new_init_poses.
                ebind (take_rows (so3_base_quat self) kQ) (\<lambda>quat.
                ebind (take_rows (base_shifts self) kT) (\<lambda>shifts.
                  Inr (new_init_poses,
                       \<lparr>keepB = kB, keepT = kT, keepQ = kQ,
                        cur_quat = as_array 4 quat,
                        cur_q_ind = so3_get_base_ind (env_grids env) kQ (base_healpy self),
                        cur_t_ind = shift_get_base_ind (env_grids env) kT
                                      (of_int (t_ngrid self) * 2 powi (base_healpy self - 1)),
                        cur_trans = as_array 2 shifts,
                        cur_loss = loss,
                        cur_rot = None\<rparr>)))))"
  show ?thesis
  proof (cases ?start)
    case (Inl e)
    then show ?thesis using False by (simp add: opt_theta_trans_def Let_def)
  next
    case (Inr started)
    obtain new_init st0 where started: "started = (new_init, st0)" by (cases started) auto
    obtain r self' where loop: "refine_loop env self images z images_tilt niter
        [base_healpy self..niter] st0 = (r, self')"
      by (cases "refine_loop env self images z images_tilt niter [base_healpy self..niter] st0")
         auto
    have "model_training self' = model_training self"
      using refine_loop_training [of env self images z images_tilt niter
          "[base_healpy self..niter]" st0] loop by simp
    moreover have "snd (opt_theta_trans env self images z images_tilt niter init_poses) = self'"
      using False Inr started loop
      by (cases r) (simp_all add: opt_theta_trans_def Let_def)
    ultimately show ?thesis by simp
  qed
qed

text \<open>
  Claim C10. When the render model is in training mode, \<open>opt_theta_trans\<close> fails with an
  assertion error whatever its collaborators are, and leaves the instance and its caches
  as they were: nothing is evaluated before. In no case does the call change the mode of
  the model.
\<close>

theorem opt_theta_trans_requires_inference_mode:
  "(model_training self \<longrightarrow>
      (\<forall>env. opt_theta_trans env self images z images_tilt niter init_poses
               = (Inl AssertionError, self)))
   \<and> model_training (snd (opt_theta_trans env self images z images_tilt niter init_poses))
       = model_training self"
proof (intro conjI impI allI)
  fix env'
  assume "model_training self"
  then show "opt_theta_trans env' self images z images_tilt niter init_poses
               = (Inl AssertionError, self)"
    by (simp add: opt_theta_trans_def)
next
  show "model_training (snd (opt_theta_trans env self images z images_tilt niter init_poses))
       = model_training self"
    by (rule opt_theta_trans_training)
qed

theorem opt_theta_trans_requires_inference_mode_witness:
  "opt_theta_trans demo_env (demo_search\<lparr>model_training := True\<rparr>) [[1, 2, 3, 4]] None None 5 None
     = (Inl AssertionError, demo_search\<lparr>model_training := True\<rparr>)"
  using opt_theta_trans_requires_inference_mode
      [of "demo_search\<lparr>model_training := True\<rparr>" "[[1, 2, 3, 4]]" None None 5 None demo_env]
  by simp

section \<open>The driver without refinement: \<open>opt_theta_trans\<close> at \<open>niter = 0\<close>\<close>
















lemma demo_translated:
  "translate_images unit_lattice (env_translate_ht demo_env) [[1, 2, 3, 4]]
     (as_array 2 [[- 1, 0], [1, 0]]) L = Inr [[[0, 1, 2, 3], [2, 3, 4, 5]]]"
  by (simp add: translate_images_def unit_lattice_def demo_env_def select_mask_def
      as_array_def rows_of_def upt_small)

lemma demo_augment:
  "inplane_augment (Some [0]) 0 [[[1, 0, 0], [0, 1, 0], [0, 0, 1]], [[1, 0, 0], [0, -1, 0], [0, 0, -1]]]
    = Inr ([[[1, 0, 0], [0, 1, 0], [0, 0, 0]], [[1, 0, 0], [0, -1, 0], [0, 0, 0]]], Some [0])"
  by (simp add: inplane_augment_def rot_2d_def matmul_def row_matmul_def upt_small)

lemma demo_interp:
  "interpolate_batch [[[1, 2], [3, 4]], [[4, 3], [2, 1]]] [[0, 0], [1, 0], [0, 1], [1, 1]]
     = Inr [[1, 2, 3, 4], [4, 3, 2, 1]]"
  by (simp add: interpolate_batch_def interpolate_def interpolate_point_def pixel_def
      tensor_index_def)

lemma demo_rescale:
  "std_rescale [1, 2, 3, 4] [1, 2, 3, 4] = [Fin 1, Fin 2, Fin 3, Fin 4]"
  "std_rescale [4, 3, 2, 1] [4, 3, 2, 1] = [Fin 4, Fin 3, Fin 2, Fin 1]"
  by (simp_all add: std_rescale_def fstd_def fsum_def fsub_def Let_def)

lemma demo_rotated:
  "rotate_images unit_lattice [[[1, 2, 3, 4], [4, 3, 2, 1]]] [0] L
     = Inr [[[Fin 1, Fin 2, Fin 3, Fin 4], [Fin 4, Fin 3, Fin 2, Fin 1]]]"
  by (simp add: rotate_images_def unit_lattice_def rot_2d_def select_mask_def
      row_matmul_def canvas_def upt_small rotate_by_angle_def demo_interp demo_rescale
      Let_def)

lemma demo_view:
  "view_preds [1, 2, 3, 4, 4, 3, 2, 1] 2 4 = Inr [[[1, 2, 3, 4], [4, 3, 2, 1]]]"
  by (simp add: view_preds_def upt_small)

lemma demo_predictions:
  "predictions unit_lattice (env_model demo_env None) 2 L 4 (Some [0]) 0
     [[[1, 0, 0], [0, 1, 0], [0, 0, 1]], [[1, 0, 0], [0, -1, 0], [0, 0, -1]]]
     = Inr [[[Fin 1, Fin 2, Fin 3, Fin 4], [Fin 4, Fin 3, Fin 2, Fin 1]]]"
  by (simp add: predictions_def demo_augment demo_env_def demo_view demo_rotated)

lemma demo_scored:
  "loss_stage ''msf'' [[[0, 1, 2, 3], [2, 3, 4, 5]]]
     [[[Fin 1, Fin 2, Fin 3, Fin 4], [Fin 4, Fin 3, Fin 2, Fin 1]]]
     = Inr [[[Fin (- 5), Fin 5], [Fin (- 25), Fin (- 15)]]]"
  by (simp add: loss_stage_def msf_views_ok_def per_candidate_def broadcastable_def
      same_width_def pred_block_def msf_row_def fdot_def fsum_def)

lemma demo_base_loss:
  "base_loss demo_env demo_search [[1, 2, 3, 4]] None None 0
     = Inr [[[Fin (- 5), Fin 5], [Fin (- 25), Fin (- 15)]]]"
proof -
  have env: "env_lattice demo_env = unit_lattice" "env_draws demo_env = (0, 0)"
    by (simp_all add: demo_env_def)
  have mask: "select_mask (lattice_coords unit_lattice) (get_circular_mask unit_lattice L)
                = Inr (lattice_coords unit_lattice)" for L
    by (simp add: unit_lattice_def select_mask_def)
  have len: "length (lattice_coords unit_lattice) = 4"
    by (simp add: unit_lattice_def)
  show ?thesis
    by (simp add: base_loss_def eval_grid_def compute_err_def demo_search_def env mask len
        demo_translated demo_predictions demo_scored Let_def)
qed


lemma demo_opt_theta_trans:
  "opt_theta_trans demo_env demo_search [[1, 2, 3, 4]] None None 0 None
     = (Inr ([[[1, 0, 0], [0, 1, 0], [0, 0, 1]]], [[1, 0]], [[[1, 0], [1, 1]]]), demo_search)"
proof -
  have num: "Suc (Suc (Suc 0)) = 3" "Suc (Suc 0) = 2" by simp_all
  have k2: "keep3 (loss_tensor [[[Fin (- 5), Fin 5], [Fin (- 25), Fin (- 15)]]]) (Suc 0) 2
              = Inr ([0, 0], [1, 1], [0, 1])"
    by (simp add: keep3_def keep_matrix_def loss_tensor_def view_rows_def topk_smallest_def
        upt_small Let_def less_eq_fval_def num)
  have k1: "keep3 (loss_tensor [[[Fin (- 5), Fin 5], [Fin (- 25), Fin (- 15)]]]) (Suc 0) (Suc 0)
              = Inr ([0], [1], [0])"
    by (simp add: keep3_def keep_matrix_def loss_tensor_def view_rows_def topk_smallest_def
        upt_small Let_def less_eq_fval_def num)
  have sel: "model_training demo_search = False" "nkeptposes demo_search = 2"
    "base_healpy demo_search = 1"
    "so3_base_quat demo_search = [[1, 0, 0, 0], [0, 1, 0, 0]]"
    "so3_base_rot demo_search
       = [[[1, 0, 0], [0, 1, 0], [0, 0, 1]], [[1, 0, 0], [0, -1, 0], [0, 0, -1]]]"
    "base_shifts demo_search = [[-1, 0], [1, 0]]"
    by (simp_all add: demo_search_def)
  show ?thesis
    by (simp add: opt_theta_trans_def first_candidates_def demo_base_loss k2 k1 sel
        pack_poses_def take_rows_def best_poses_def upt_small Let_def)
qed



end
